theory Spec2Isabelle
  imports Main "HOL-Library.Word"
begin

unbundle bit_operations_syntax

section \<open>Machine integers and the memory map\<close>

type_synonym u8 = "8 word"
type_synonym u16 = "16 word"
type_synonym u32 = "32 word"

text \<open>The memory-mapping macros of FlashTools.h, computed as the preprocessor does.\<close>

definition IFLASH0_ADDR :: u32 where "IFLASH0_ADDR = 0x00080000"
definition IFLASH1_ADDR :: u32 where "IFLASH1_ADDR = 0x000C0000"
definition IROM_ADDR :: u32 where "IROM_ADDR = 0x00100000"
definition IFLASH0_SIZE :: u32 where "IFLASH0_SIZE = IFLASH1_ADDR - IFLASH0_ADDR"
definition IFLASH1_SIZE :: u32 where "IFLASH1_SIZE = IFLASH0_SIZE"
definition IFLASH_ADDR :: u32 where "IFLASH_ADDR = IFLASH0_ADDR"
definition IFLASH_PAGE_SIZE :: u32 where "IFLASH_PAGE_SIZE = 256"
definition IFLASH_NB_OF_PAGES :: u32 where "IFLASH_NB_OF_PAGES = 1024"
definition IFLASH_LOCK_REGION_PAGES :: u32 where "IFLASH_LOCK_REGION_PAGES = 64"
definition IFLASH_WORD_SIZE :: u32 where "IFLASH_WORD_SIZE = 4"
definition IFLASH_LOCK_REGION_SIZE :: u32 where
  "IFLASH_LOCK_REGION_SIZE = IFLASH_PAGE_SIZE * IFLASH_LOCK_REGION_PAGES"
definition IFLASH_WORDS_PER_PAGE :: u32 where
  "IFLASH_WORDS_PER_PAGE = IFLASH_PAGE_SIZE div IFLASH_WORD_SIZE"
definition IFLASH_LAST_PAGE_ADDRESS :: u32 where
  "IFLASH_LAST_PAGE_ADDRESS = IFLASH1_ADDR + IFLASH1_SIZE - IFLASH_PAGE_SIZE"
definition CHIP_FLASH_WAIT_STATE :: u32 where "CHIP_FLASH_WAIT_STATE = 6"
definition UNIQUE_ID_SIZE :: nat where "UNIQUE_ID_SIZE = 4"
definition FLASH_DESCRIPTOR_SIZE :: nat where "FLASH_DESCRIPTOR_SIZE = 4"

text \<open>Flash mode register and flash status register fields.\<close>

definition EEFC_FMR_FWS_Pos :: nat where "EEFC_FMR_FWS_Pos = 8"
definition EEFC_FMR_FWS_Msk :: u32 where "EEFC_FMR_FWS_Msk = push_bit EEFC_FMR_FWS_Pos 0xf"
definition EEFC_FMR_FWS :: "u32 \<Rightarrow> u32" where
  "EEFC_FMR_FWS v = EEFC_FMR_FWS_Msk AND push_bit EEFC_FMR_FWS_Pos v"
definition EEFC_FMR_FAM :: u32 where "EEFC_FMR_FAM = push_bit 24 1"
definition EEFC_FMR_SCOD :: u32 where "EEFC_FMR_SCOD = push_bit 16 1"
definition FLASH_ACCESS_MODE_128 :: u32 where "FLASH_ACCESS_MODE_128 = 0"

definition EEFC_FSR_FRDY :: u32 where "EEFC_FSR_FRDY = push_bit 0 1"
definition EEFC_FSR_FCMDE :: u32 where "EEFC_FSR_FCMDE = push_bit 1 1"
definition EEFC_FSR_FLOCKE :: u32 where "EEFC_FSR_FLOCKE = push_bit 2 1"
definition EEFC_ERROR_FLAGS :: u32 where "EEFC_ERROR_FLAGS = EEFC_FSR_FLOCKE OR EEFC_FSR_FCMDE"

text \<open>Flash commands, the write-protection key and the return codes.\<close>

definition EFC_FCMD_GETD :: u32 where "EFC_FCMD_GETD = 0x00"
definition EFC_FCMD_WP :: u32 where "EFC_FCMD_WP = 0x01"
definition EFC_FCMD_WPL :: u32 where "EFC_FCMD_WPL = 0x02"
definition EFC_FCMD_EWP :: u32 where "EFC_FCMD_EWP = 0x03"
definition EFC_FCMD_EWPL :: u32 where "EFC_FCMD_EWPL = 0x04"
definition EFC_FCMD_EA :: u32 where "EFC_FCMD_EA = 0x05"
definition EFC_FCMD_SLB :: u32 where "EFC_FCMD_SLB = 0x08"
definition EFC_FCMD_CLB :: u32 where "EFC_FCMD_CLB = 0x09"
definition EFC_FCMD_GLB :: u32 where "EFC_FCMD_GLB = 0x0A"
definition EFC_FCMD_SGPB :: u32 where "EFC_FCMD_SGPB = 0x0B"
definition EFC_FCMD_CGPB :: u32 where "EFC_FCMD_CGPB = 0x0C"
definition EFC_FCMD_GGPB :: u32 where "EFC_FCMD_GGPB = 0x0D"
definition EFC_FCMD_STUI :: u32 where "EFC_FCMD_STUI = 0x0E"
definition EFC_FCMD_SPUI :: u32 where "EFC_FCMD_SPUI = 0x0F"

definition FWP_KEY :: u32 where "FWP_KEY = 0x5A"

definition SUCCESS :: u32 where "SUCCESS = 0"
definition ERROR :: u32 where "ERROR = 0x10"
definition INVALID :: u32 where "INVALID = 0xFFFFFFFF"
definition BIT_IS_SET :: u32 where "BIT_IS_SET = 1"
definition BIT_IS_CLEARED :: u32 where "BIT_IS_CLEARED = 0"

definition NULL :: u32 where "NULL = 0"

lemmas flash_consts =
  IFLASH0_ADDR_def IFLASH1_ADDR_def IROM_ADDR_def IFLASH0_SIZE_def IFLASH1_SIZE_def
  IFLASH_ADDR_def IFLASH_PAGE_SIZE_def IFLASH_NB_OF_PAGES_def IFLASH_LOCK_REGION_PAGES_def
  IFLASH_WORD_SIZE_def IFLASH_LOCK_REGION_SIZE_def IFLASH_WORDS_PER_PAGE_def
  IFLASH_LAST_PAGE_ADDRESS_def CHIP_FLASH_WAIT_STATE_def UNIQUE_ID_SIZE_def
  FLASH_DESCRIPTOR_SIZE_def

lemmas reg_consts =
  EEFC_FMR_FWS_Pos_def EEFC_FMR_FWS_Msk_def EEFC_FMR_FWS_def EEFC_FMR_FAM_def
  EEFC_FMR_SCOD_def FLASH_ACCESS_MODE_128_def EEFC_FSR_FRDY_def EEFC_FSR_FCMDE_def
  EEFC_FSR_FLOCKE_def EEFC_ERROR_FLAGS_def

lemmas cmd_consts =
  EFC_FCMD_GETD_def EFC_FCMD_WP_def EFC_FCMD_WPL_def EFC_FCMD_EWP_def EFC_FCMD_EWPL_def
  EFC_FCMD_EA_def EFC_FCMD_SLB_def EFC_FCMD_CLB_def EFC_FCMD_GLB_def EFC_FCMD_SGPB_def
  EFC_FCMD_CGPB_def EFC_FCMD_GGPB_def EFC_FCMD_STUI_def EFC_FCMD_SPUI_def FWP_KEY_def

lemmas ret_consts = SUCCESS_def ERROR_def INVALID_def BIT_IS_SET_def BIT_IS_CLEARED_def NULL_def

section \<open>The machine: the FlashTools object and the hardware it drives\<close>

text \<open>
  The two flash controllers, their four registers, and what the program does to the
  hardware: a call of the IAP routine in ROM, a register read, a register write.
\<close>

datatype efc_id = EFC0 | EFC1

datatype reg = EEFC_FMR | EEFC_FCR | EEFC_FSR | EEFC_FRR

datatype event =
    IAP_call u32 u32
  | Reg_read efc_id reg
  | Reg_write efc_id reg u32

text \<open>
  The object's members (\<open>efc\<close>, the saved mode values, the two caches, the static page
  buffer of \<open>flashcpy\<close>) and the hardware in one state.

  \<^item> \<open>mem\<close> is the byte-addressed memory, flash window and caller buffers alike; a
    pointer is an address, \<open>NULL\<close> is 0. A store to a flash address is visible to later
    loads. The object's own members are not part of \<open>mem\<close>.
  \<^item> \<open>fmr\<close> is the read-write flash mode register of each controller.
  \<^item> The status and result registers are volatile and read-only: the k-th read of one
    returns the k-th value of its input stream (\<open>fsr_in\<close>, \<open>frr_in\<close>), whatever the
    hardware makes it; \<open>fsr_pos\<close> and \<open>frr_pos\<close> count the reads made so far.
  \<^item> \<open>trace\<close> lists every IAP call and register access in order.
  Arrays are functions from the index.
\<close>

record machine =
  efc :: efc_id
  FWS0 :: u32
  FWS1 :: u32
  FAM0 :: u32
  FAM1 :: u32
  uniqueID :: "nat \<Rightarrow> u32"
  flash_descriptor :: "nat \<Rightarrow> u32"
  page_buffer :: "nat \<Rightarrow> u8"
  mem :: "u32 \<Rightarrow> u8"
  fmr :: "efc_id \<Rightarrow> u32"
  fsr_in :: "efc_id \<Rightarrow> nat \<Rightarrow> u32"
  fsr_pos :: "efc_id \<Rightarrow> nat"
  frr_in :: "efc_id \<Rightarrow> nat \<Rightarrow> u32"
  frr_pos :: "efc_id \<Rightarrow> nat"
  trace :: "event list"

definition read_FMR :: "efc_id \<Rightarrow> machine \<Rightarrow> u32 \<times> machine" where
  "read_FMR e s = (fmr s e, s\<lparr>trace := trace s @ [Reg_read e EEFC_FMR]\<rparr>)"

definition write_FMR :: "efc_id \<Rightarrow> u32 \<Rightarrow> machine \<Rightarrow> machine" where
  "write_FMR e v s = s\<lparr>fmr := (fmr s)(e := v), trace := trace s @ [Reg_write e EEFC_FMR v]\<rparr>"

definition write_FCR :: "efc_id \<Rightarrow> u32 \<Rightarrow> machine \<Rightarrow> machine" where
  "write_FCR e v s = s\<lparr>trace := trace s @ [Reg_write e EEFC_FCR v]\<rparr>"

definition read_FSR :: "efc_id \<Rightarrow> machine \<Rightarrow> u32 \<times> machine" where
  "read_FSR e s =
     (fsr_in s e (fsr_pos s e),
      s\<lparr>fsr_pos := (fsr_pos s)(e := Suc (fsr_pos s e)),
        trace := trace s @ [Reg_read e EEFC_FSR]\<rparr>)"

definition read_FRR :: "efc_id \<Rightarrow> machine \<Rightarrow> u32 \<times> machine" where
  "read_FRR e s =
     (frr_in s e (frr_pos s e),
      s\<lparr>frr_pos := (frr_pos s)(e := Suc (frr_pos s e)),
        trace := trace s @ [Reg_read e EEFC_FRR]\<rparr>)"

text \<open>The IAP routine lives in ROM: the model records the call and its two arguments.\<close>

definition IAP :: "u32 \<Rightarrow> u32 \<Rightarrow> machine \<Rightarrow> machine" where
  "IAP EFCidx c s = s\<lparr>trace := trace s @ [IAP_call EFCidx c]\<rparr>"

text \<open>Little-endian 32-bit loads and stores on the byte memory.\<close>

definition word_of_bytes :: "u8 \<Rightarrow> u8 \<Rightarrow> u8 \<Rightarrow> u8 \<Rightarrow> u32" where
  "word_of_bytes b0 b1 b2 b3 =
     ucast b0 OR push_bit 8 (ucast b1) OR push_bit 16 (ucast b2) OR push_bit 24 (ucast b3)"

definition byte_of :: "u32 \<Rightarrow> nat \<Rightarrow> u8" where
  "byte_of w k = ucast (drop_bit (8 * k) w)"

definition load32 :: "(u32 \<Rightarrow> u8) \<Rightarrow> u32 \<Rightarrow> u32" where
  "load32 m a = word_of_bytes (m a) (m (a + 1)) (m (a + 2)) (m (a + 3))"

definition store32 :: "(u32 \<Rightarrow> u8) \<Rightarrow> u32 \<Rightarrow> u32 \<Rightarrow> (u32 \<Rightarrow> u8)" where
  "store32 m a w =
     m(a := byte_of w 0, a + 1 := byte_of w 1, a + 2 := byte_of w 2, a + 3 := byte_of w 3)"

section \<open>Wait states and the command protocol\<close>

text \<open>\<open>EEFC_FCR_Type\<close>: the command register as three bit fields and as one word.\<close>

record EEFC_FCR_Type =
  FCMD :: "8 word"
  FARG :: "16 word"
  FKEY :: "8 word"

definition FULL :: "EEFC_FCR_Type \<Rightarrow> u32" where
  "FULL r = ucast (FCMD r) OR push_bit 8 (ucast (FARG r)) OR push_bit 24 (ucast (FKEY r))"

definition FULL_zero :: EEFC_FCR_Type where
  "FULL_zero = \<lparr>FCMD = 0, FARG = 0, FKEY = 0\<rparr>"

definition getfws :: "machine \<Rightarrow> u32 \<times> machine" where
  "getfws s =
     (let (v, s1) = read_FMR (efc s) s
      in (drop_bit EEFC_FMR_FWS_Pos (v AND EEFC_FMR_FWS_Msk), s1))"

definition setfws :: "u32 \<Rightarrow> machine \<Rightarrow> machine" where
  "setfws fws s =
     (let (v, s1) = read_FMR (efc s) s
      in write_FMR (efc s1) ((v AND NOT EEFC_FMR_FWS_Msk) OR EEFC_FMR_FWS fws) s1)"

definition cmd :: "u32 \<Rightarrow> u32 \<Rightarrow> machine \<Rightarrow> u32 \<times> machine" where
  "cmd c arg s =
     (let r0 = FULL_zero;
          r1 = r0\<lparr>FCMD := ucast c\<rparr>;
          r2 = r1\<lparr>FKEY := ucast FWP_KEY\<rparr>;
          r3 = r2\<lparr>FARG := ucast arg\<rparr>;
          s1 = IAP (if efc s = EFC0 then 0 else 1) (FULL r3) s;
          (stat, s2) = read_FSR (efc s1) s1
      in (stat AND EEFC_ERROR_FLAGS, s2))"

section \<open>The page write engine\<close>

text \<open>
  \<open>memcpy\<close> into the static page buffer: \<open>n\<close> bytes of \<open>src\<close> land at index \<open>dest\<close>.
  The buffer is indexed past its 256 bytes too (what C++ leaves undefined); only
  indices below 256 are ever read back.
\<close>

definition memcpy_page_buffer ::
  "(nat \<Rightarrow> u8) \<Rightarrow> nat \<Rightarrow> (nat \<Rightarrow> u8) \<Rightarrow> nat \<Rightarrow> (nat \<Rightarrow> u8)" where
  "memcpy_page_buffer pb dest src n =
     (\<lambda>i. if dest \<le> i \<and> i < dest + n then src (i - dest) else pb i)"

definition bytes_at :: "(u32 \<Rightarrow> u8) \<Rightarrow> u32 \<Rightarrow> nat \<Rightarrow> u8" where
  "bytes_at m p k = m (p + of_nat k)"

text \<open>One round of the three-part copy loop of \<open>flashcpy\<close> (\<open>i\<close> = 0, 1, 2).\<close>

definition flashcpy_part ::
  "(u32 \<Rightarrow> u8) \<Rightarrow> u32 \<Rightarrow> (nat \<Rightarrow> u32) \<Rightarrow> nat \<Rightarrow>
   nat \<times> u32 \<times> (nat \<Rightarrow> u8) \<Rightarrow> nat \<times> u32 \<times> (nat \<Rightarrow> u8)" where
  "flashcpy_part m write_data sizes i =
     (\<lambda>(dest, page_data, pb).
        (dest + unat (sizes i), page_data + sizes i,
         memcpy_page_buffer pb dest
           (bytes_at m (if i = 1 then write_data else page_data)) (unat (sizes i))))"

definition page_buffer_word :: "(nat \<Rightarrow> u8) \<Rightarrow> nat \<Rightarrow> u32" where
  "page_buffer_word pb t = word_of_bytes (pb (4 * t)) (pb (4 * t + 1)) (pb (4 * t + 2)) (pb (4 * t + 3))"

definition flashcpy :: "u32 \<Rightarrow> u32 \<Rightarrow> u32 \<Rightarrow> u32 \<Rightarrow> u32 \<Rightarrow> machine \<Rightarrow> u32 \<times> machine" where
  "flashcpy page_address write_data offset write_size padding_size s =
     (let sizes = (\<lambda>i::nat. if i = 0 then offset else if i = 1 then write_size else padding_size);
          page_data = page_address
      in if page_data = NULL \<or> write_data = NULL then (NULL, s)
         else
           let (dest, page_data', pb) =
                 fold (flashcpy_part (mem s) write_data sizes) [0, 1, 2]
                   (0, page_data, page_buffer s);
               s1 = s\<lparr>page_buffer := pb\<rparr>;
               m = fold (\<lambda>t m. store32 m (page_address + 4 * of_nat t) (page_buffer_word pb t))
                     [0..<unat IFLASH_WORDS_PER_PAGE] (mem s1)
           in (page_address, s1\<lparr>mem := m\<rparr>))"

text \<open>
  The \<open>for\<close> loop of \<open>write\<close>. \<open>tsz\<close> is \<open>sizeof(Type)\<close>. The loop either leaves
  \<open>write\<close> with a value (\<open>Return\<close>) or runs to its end (\<open>Done\<close>).
\<close>

datatype loop_exit = Return u32 | Done

partial_function (option) write_pages ::
  "u32 \<Rightarrow> u32 \<Rightarrow> bool \<Rightarrow> bool \<Rightarrow> u16 \<Rightarrow> u16 \<Rightarrow> u32 \<Rightarrow> u32 \<Rightarrow> machine \<Rightarrow>
   (loop_exit \<times> machine) option" where
  "write_pages tsz FLASH_START_ADDR erase lock page_num offset data data_size s =
     (if data_size > 0 then
        let write_size =
              (if IFLASH_PAGE_SIZE - ucast offset < data_size
               then IFLASH_PAGE_SIZE - ucast offset else data_size);
            page_address = FLASH_START_ADDR + ucast page_num * IFLASH_PAGE_SIZE;
            padding_size = (ucast (IFLASH_PAGE_SIZE - ucast offset - write_size) :: u16);
            (p, s1) = flashcpy page_address data (ucast offset) write_size (ucast padding_size) s;
            (r, s2) = cmd (if erase \<and> lock then EFC_FCMD_EWPL
                           else if erase then EFC_FCMD_EWP else EFC_FCMD_WP)
                          (ucast page_num) s1
        in if r \<noteq> SUCCESS
           then (let (v, s3) = read_FSR (efc s2) s2
                 in Some (Return (v AND EEFC_ERROR_FLAGS), s3))
           else write_pages tsz FLASH_START_ADDR erase lock (page_num + 1) 0
                  (data + (write_size div tsz) * tsz) (data_size - write_size) s2
      else Some (Done, s))"

section \<open>The lock region manager\<close>

definition READ_SIZE :: u32 where "READ_SIZE = 32"

text \<open>The first loop of \<open>islocked\<close>: skip the 32-bit groups before \<open>start_region\<close>'s.\<close>

partial_function (option) islocked_skip ::
  "u16 \<Rightarrow> u32 \<Rightarrow> u32 \<Rightarrow> machine \<Rightarrow> (u32 \<times> u32 \<times> machine) option" where
  "islocked_skip start_region involved stat s =
     (if \<not> (involved \<le> ucast start_region \<and> ucast start_region < involved + READ_SIZE)
      then (let (v, s1) = read_FRR (efc s) s
            in islocked_skip start_region (involved + READ_SIZE) v s1)
      else Some (involved, stat, s))"

text \<open>The second loop: \<open>idx\<close> rounds, one lock bit each (\<open>bitn\<close> is the source's \<open>bit\<close>).\<close>

fun islocked_count :: "nat \<Rightarrow> u32 \<Rightarrow> u32 \<Rightarrow> u32 \<Rightarrow> machine \<Rightarrow> u32 \<times> machine" where
  "islocked_count 0 bitn stat locked_regions s = (locked_regions, s)"
| "islocked_count (Suc idx) bitn stat locked_regions s =
     (let locked_regions' =
            (if stat AND push_bit (unat bitn) 1 \<noteq> 0 then locked_regions + 1 else locked_regions)
      in if bitn + 1 = READ_SIZE
         then (let (v, s1) = read_FRR (efc s) s in islocked_count idx 0 v locked_regions' s1)
         else islocked_count idx (bitn + 1) stat locked_regions' s)"

definition islocked :: "u32 \<Rightarrow> u32 \<Rightarrow> machine \<Rightarrow> (u32 \<times> machine) option" where
  "islocked start_addr end_addr s =
     (let base = (if start_addr \<ge> IFLASH1_ADDR then IFLASH1_ADDR else IFLASH0_ADDR);
          s0 = s\<lparr>efc := (if start_addr \<ge> IFLASH1_ADDR then EFC1 else EFC0)\<rparr>;
          start_page = (ucast ((start_addr - base) div IFLASH_PAGE_SIZE) :: u16);
          end_page = (ucast ((end_addr - base) div IFLASH_PAGE_SIZE) :: u16);
          start_region =
            (ucast ((ucast start_page :: u32) div (IFLASH_LOCK_REGION_SIZE div IFLASH_PAGE_SIZE)) :: u16);
          end_region =
            (ucast ((ucast end_page :: u32) div (IFLASH_LOCK_REGION_SIZE div IFLASH_PAGE_SIZE)) :: u16);
          (r, s1) = cmd EFC_FCMD_GLB 0 s0
      in if r \<noteq> SUCCESS
         then (let (v, s2) = read_FSR (efc s1) s1 in Some (v AND EEFC_ERROR_FLAGS, s2))
         else
           let (stat0, s2) = read_FRR (efc s1) s1
           in case islocked_skip start_region 0 stat0 s2 of
                None \<Rightarrow> None
              | Some (involved, stat, s3) \<Rightarrow>
                  Some (islocked_count
                          (unat ((ucast end_region :: u32) - ucast start_region + 1))
                          (ucast start_region - involved) stat 0 s3))"

text \<open>The \<open>while\<close> loop of \<open>unlock\<close>; \<open>start_page\<close> is a \<open>uint16_t\<close> and wraps.\<close>

partial_function (option) unlock_loop ::
  "u16 \<Rightarrow> u16 \<Rightarrow> u16 \<Rightarrow> machine \<Rightarrow> (u32 \<times> machine) option" where
  "unlock_loop start_page end_page pages_in_region s =
     (if start_page < end_page then
        let (r, s1) = cmd EFC_FCMD_CLB (ucast start_page) s
        in if r \<noteq> SUCCESS
           then (let (v, s2) = read_FSR (efc s1) s1 in Some (v AND EEFC_ERROR_FLAGS, s2))
           else unlock_loop (start_page + pages_in_region) end_page pages_in_region s1
      else Some (SUCCESS, s))"

definition unlock :: "u32 \<Rightarrow> u32 \<Rightarrow> machine \<Rightarrow> (u32 \<times> machine) option" where
  "unlock start_addr end_addr s =
     (let pages_in_region = (ucast (IFLASH_LOCK_REGION_SIZE div IFLASH_PAGE_SIZE) :: u16);
          actual_start_addr = start_addr - (start_addr mod IFLASH_LOCK_REGION_SIZE);
          actual_end_addr =
            end_addr - (end_addr mod IFLASH_LOCK_REGION_SIZE) + IFLASH_LOCK_REGION_SIZE - 1;
          base = (if actual_start_addr \<ge> IFLASH1_ADDR then IFLASH1_ADDR else IFLASH0_ADDR);
          s0 = s\<lparr>efc := (if actual_start_addr \<ge> IFLASH1_ADDR then EFC1 else EFC0)\<rparr>;
          start_page = (ucast ((actual_start_addr - base) div IFLASH_PAGE_SIZE) :: u16);
          end_page = (ucast ((actual_end_addr - base) div IFLASH_PAGE_SIZE) :: u16)
      in unlock_loop start_page end_page pages_in_region s0)"

section \<open>write\<close>

text \<open>What \<open>write\<close> does once the address is valid and the range is unlocked.\<close>

definition write_unlocked ::
  "u32 \<Rightarrow> u32 \<Rightarrow> u32 \<Rightarrow> u32 \<Rightarrow> bool \<Rightarrow> bool \<Rightarrow> machine \<Rightarrow> (u32 \<times> machine) option" where
  "write_unlocked tsz addr data data_size erase lock s =
     (let FLASH_START_ADDR = (if addr \<ge> IFLASH1_ADDR then IFLASH1_ADDR else IFLASH0_ADDR);
          s0 = s\<lparr>efc := (if addr \<ge> IFLASH1_ADDR then EFC1 else EFC0)\<rparr>;
          page_num = (ucast ((addr - FLASH_START_ADDR) div IFLASH_PAGE_SIZE) :: u16);
          offset = (ucast ((addr - FLASH_START_ADDR) mod IFLASH_PAGE_SIZE) :: u16);
          (fws, s1) = getfws s0;
          s2 = setfws CHIP_FLASH_WAIT_STATE s1
      in case write_pages tsz FLASH_START_ADDR erase lock page_num offset data data_size s2 of
           None \<Rightarrow> None
         | Some (Return v, s3) \<Rightarrow> Some (v, s3)
         | Some (Done, s3) \<Rightarrow> Some (SUCCESS, setfws fws s3))"

text \<open>\<open>FlashTools::write\<close> (the name \<open>write\<close> is taken by Isar).\<close>

definition write_flash ::
  "u32 \<Rightarrow> u32 \<Rightarrow> u32 \<Rightarrow> u32 \<Rightarrow> bool \<Rightarrow> bool \<Rightarrow> machine \<Rightarrow> (u32 \<times> machine) option" where
  "write_flash tsz addr data data_size erase lock s =
     (if addr \<ge> IFLASH_LAST_PAGE_ADDRESS + IFLASH_PAGE_SIZE \<or> addr < IFLASH_ADDR \<or> addr AND 3 \<noteq> 0
      then Some (INVALID, s)
      else
        case islocked addr (addr + data_size - 1) s of
          None \<Rightarrow> None
        | Some (n, s1) \<Rightarrow>
            if n \<noteq> 0 then
              (case unlock addr (addr + data_size - 1) s1 of
                 None \<Rightarrow> None
               | Some (u, s2) \<Rightarrow>
                   if u \<noteq> SUCCESS then Some (ERROR, s2)
                   else write_unlocked tsz addr data data_size erase lock s2)
            else write_unlocked tsz addr data data_size erase lock s1)"

section \<open>read\<close>

text \<open>
  \<open>read<Type>\<close> for an unsigned integer \<open>Type\<close> of \<open>LENGTH('a)\<close> bits: the little-endian
  load of \<open>*reinterpret_cast<Type *>(addr)\<close>, and \<open>INVALID\<close> converted to \<open>Type\<close>.
\<close>

definition deref :: "(u32 \<Rightarrow> u8) \<Rightarrow> u32 \<Rightarrow> 'a::len word" where
  "deref m a =
     fold (\<lambda>k w. w OR push_bit (8 * k) (ucast (m (a + of_nat k)))) [0..<LENGTH('a) div 8] 0"

definition read :: "u32 \<Rightarrow> machine \<Rightarrow> 'a::len word" where
  "read addr s =
     (if addr > IFLASH_LAST_PAGE_ADDRESS + IFLASH_PAGE_SIZE \<or> addr < IFLASH0_ADDR
      then ucast INVALID else deref (mem s) addr)"

section \<open>The unique ID reader\<close>

text \<open>
  The two busy-wait loops of \<open>getUniqueID\<close> on the volatile status register. Either may
  run forever: not returning is \<open>None\<close>.
\<close>

partial_function (option) wait_FRDY_fall :: "u32 \<Rightarrow> machine \<Rightarrow> machine option" where
  "wait_FRDY_fall stat s =
     (if stat AND EEFC_FSR_FRDY = EEFC_FSR_FRDY
      then (let (v, s1) = read_FSR (efc s) s in wait_FRDY_fall v s1)
      else Some s)"

partial_function (option) wait_FRDY_rise :: "u32 \<Rightarrow> machine \<Rightarrow> machine option" where
  "wait_FRDY_rise stat s =
     (if stat AND EEFC_FSR_FRDY \<noteq> EEFC_FSR_FRDY
      then (let (v, s1) = read_FSR (efc s) s in wait_FRDY_rise v s1)
      else Some s)"

text \<open>\<open>uBuff[i] = uniqueID[i] = tmpUniqueID[i]\<close>, one round.\<close>

definition copy_unique_word :: "u32 \<Rightarrow> u32 \<Rightarrow> nat \<Rightarrow> machine \<Rightarrow> machine" where
  "copy_unique_word tmpUniqueID uBuff i s =
     (let v = load32 (mem s) (tmpUniqueID + 4 * of_nat i)
      in s\<lparr>uniqueID := (uniqueID s)(i := v),
           mem := store32 (mem s) (uBuff + 4 * of_nat i) v\<rparr>)"

definition getUniqueID :: "u32 \<Rightarrow> machine \<Rightarrow> (u32 \<times> machine) option" where
  "getUniqueID uBuff s =
     (if uBuff = NULL then Some (INVALID, s)
      else if uniqueID s 0 \<noteq> 0 then
        Some (SUCCESS,
              s\<lparr>mem := fold (\<lambda>i m. store32 m (uBuff + 4 * of_nat i) (uniqueID s i))
                          [0..<UNIQUE_ID_SIZE] (mem s)\<rparr>)
      else
        let (fws, s1) = getfws s;
            s2 = setfws CHIP_FLASH_WAIT_STATE s1;
            tmpUniqueID = (if efc s2 = EFC0 then IFLASH0_ADDR else IFLASH1_ADDR);
            (m, s3) = read_FMR (efc s2) s2;
            s4 = write_FMR (efc s3) (m OR EEFC_FMR_SCOD) s3;
            start = FULL_zero\<lparr>FCMD := ucast EFC_FCMD_STUI, FARG := 0, FKEY := ucast FWP_KEY\<rparr>;
            s5 = write_FCR (efc s4) (FULL start) s4;
            (stat, s6) = read_FSR (efc s5) s5
        in case wait_FRDY_fall stat s6 of
             None \<Rightarrow> None
           | Some s7 \<Rightarrow>
               let s8 = fold (copy_unique_word tmpUniqueID uBuff) [0..<UNIQUE_ID_SIZE] s7;
                   stop = FULL_zero\<lparr>FCMD := ucast EFC_FCMD_SPUI, FARG := 0, FKEY := ucast FWP_KEY\<rparr>;
                   s9 = write_FCR (efc s8) (FULL stop) s8;
                   (stat', s10) = read_FSR (efc s9) s9
               in case wait_FRDY_rise stat' s10 of
                    None \<Rightarrow> None
                  | Some s11 \<Rightarrow>
                      let (m', s12) = read_FMR (efc s11) s11;
                          s13 = write_FMR (efc s12) (m' AND NOT EEFC_FMR_SCOD) s12
                      in Some (SUCCESS, setfws fws s13))"

section \<open>The GPNVM bits\<close>

definition setSecurityBit :: "machine \<Rightarrow> u32 \<times> machine" where
  "setSecurityBit s =
     (let (r, s1) = cmd EFC_FCMD_GGPB 0 s
      in if r = SUCCESS
         then (let (v, s2) = read_FRR (efc s1) s1
               in if v AND push_bit 0 1 \<noteq> 0 then (SUCCESS, s2) else cmd EFC_FCMD_SGPB 0 s2)
         else cmd EFC_FCMD_SGPB 0 s1)"

definition setBootModeSAMBA :: "machine \<Rightarrow> u32 \<times> machine" where
  "setBootModeSAMBA s =
     (let (r, s1) = cmd EFC_FCMD_GGPB 0 s
      in if r = SUCCESS
         then (let (v, s2) = read_FRR (efc s1) s1
               in if \<not> (v AND push_bit 1 1 \<noteq> 0) then (SUCCESS, s2) else cmd EFC_FCMD_CGPB 1 s2)
         else cmd EFC_FCMD_CGPB 1 s1)"

definition setBootModeFlash :: "machine \<Rightarrow> u32 \<times> machine" where
  "setBootModeFlash s =
     (let (r, s1) = cmd EFC_FCMD_GGPB 0 s
      in if r = SUCCESS
         then (let (v, s2) = read_FRR (efc s1) s1
               in if v AND push_bit 1 1 \<noteq> 0 then (SUCCESS, s2) else cmd EFC_FCMD_SGPB 1 s2)
         else cmd EFC_FCMD_SGPB 1 s1)"

definition setBootFlash0 :: "machine \<Rightarrow> u32 \<times> machine" where
  "setBootFlash0 s =
     (let (r, s1) = cmd EFC_FCMD_GGPB 0 s
      in if r = SUCCESS
         then (let (v, s2) = read_FRR (efc s1) s1
               in if \<not> (v AND push_bit 2 1 \<noteq> 0) then (SUCCESS, s2) else cmd EFC_FCMD_CGPB 2 s2)
         else cmd EFC_FCMD_CGPB 2 s1)"

definition setBootFlash1 :: "machine \<Rightarrow> u32 \<times> machine" where
  "setBootFlash1 s =
     (let (r, s1) = cmd EFC_FCMD_GGPB 0 s
      in if r = SUCCESS
         then (let (v, s2) = read_FRR (efc s1) s1
               in if v AND push_bit 2 1 \<noteq> 0 then (SUCCESS, s2) else cmd EFC_FCMD_SGPB 2 s2)
         else cmd EFC_FCMD_SGPB 2 s1)"

section \<open>The flash descriptor cache\<close>

text \<open>
  The read loop of \<open>getFlashDescriptor\<close>:
  \<open>for (i = 0, res; i < FLASH_DESCRIPTOR_SIZE && (res = efc->EEFC_FRR) != 0; ++i)\<close>.
\<close>

function read_descriptor :: "nat \<Rightarrow> machine \<Rightarrow> machine" where
  "read_descriptor i s =
     (if i < FLASH_DESCRIPTOR_SIZE
      then (let (res, s1) = read_FRR (efc s) s
            in if res \<noteq> 0
               then read_descriptor (Suc i) (s1\<lparr>flash_descriptor := (flash_descriptor s1)(i := res)\<rparr>)
               else s1)
      else s)"
  by pat_completeness auto
termination
  by (relation "measure (\<lambda>(i, s). FLASH_DESCRIPTOR_SIZE - i)") auto

text \<open>The result is whether the returned pointer is \<open>flash_descriptor\<close> (not \<open>NULL\<close>).\<close>

definition getFlashDescriptor :: "u32 \<Rightarrow> machine \<Rightarrow> bool \<times> machine" where
  "getFlashDescriptor addr s =
     (if addr > IFLASH_LAST_PAGE_ADDRESS then (False, s)
      else
        let s0 = s\<lparr>efc := (if addr \<ge> IFLASH1_ADDR then EFC1 else EFC0)\<rparr>;
            (r, s1) = cmd EFC_FCMD_GETD 0 s0
        in if r \<noteq> SUCCESS then (False, s1)
           else
             let s2 = read_descriptor 0 s1
             in (True, s2\<lparr>flash_descriptor := (flash_descriptor s2)(FLASH_DESCRIPTOR_SIZE := addr)\<rparr>))"

text \<open>
  The seven getters share one condition,
  \<open>flash_descriptor[FLASH_DESCRIPTOR_SIZE] == addr || getFlashDescriptor(addr) != NULL\<close>:
  the fetch runs only when the tag differs.
\<close>

definition descriptor_for :: "u32 \<Rightarrow> machine \<Rightarrow> bool \<times> machine" where
  "descriptor_for addr s =
     (if flash_descriptor s FLASH_DESCRIPTOR_SIZE = addr then (True, s)
      else getFlashDescriptor addr s)"

definition getFlashId :: "u32 \<Rightarrow> machine \<Rightarrow> u32 \<times> machine" where
  "getFlashId addr s =
     (let (ok, s1) = descriptor_for addr s in (if ok then flash_descriptor s1 0 else INVALID, s1))"

definition getFlashSize :: "u32 \<Rightarrow> machine \<Rightarrow> u32 \<times> machine" where
  "getFlashSize addr s =
     (let (ok, s1) = descriptor_for addr s in (if ok then flash_descriptor s1 1 else INVALID, s1))"

definition getPageSize :: "u32 \<Rightarrow> machine \<Rightarrow> u32 \<times> machine" where
  "getPageSize addr s =
     (let (ok, s1) = descriptor_for addr s in (if ok then flash_descriptor s1 2 else INVALID, s1))"

definition getRegionCount :: "u32 \<Rightarrow> machine \<Rightarrow> u32 \<times> machine" where
  "getRegionCount addr s =
     (let (ok, s1) = descriptor_for addr s in (if ok then flash_descriptor s1 3 else INVALID, s1))"

definition getRegionSize :: "u32 \<Rightarrow> machine \<Rightarrow> u32 \<times> machine" where
  "getRegionSize addr s =
     (let (ok, s1) = descriptor_for addr s in (if ok then flash_descriptor s1 4 else INVALID, s1))"

text \<open>Unsigned division; where the divisor is 0 the C++ is undefined and HOL gives 0.\<close>

definition getPageCount :: "u32 \<Rightarrow> machine \<Rightarrow> u32 \<times> machine" where
  "getPageCount addr s =
     (let (ok, s1) = descriptor_for addr s
      in (if ok then flash_descriptor s1 1 div flash_descriptor s1 2 else INVALID, s1))"

definition getPageCountPerRegion :: "u32 \<Rightarrow> machine \<Rightarrow> u32 \<times> machine" where
  "getPageCountPerRegion addr s =
     (let (ok, s1) = descriptor_for addr s
      in (if ok then flash_descriptor s1 4 div flash_descriptor s1 2 else INVALID, s1))"

section \<open>The constructor\<close>

text \<open>
  The constructor, as far as the modelled state goes (the MPU, the SCB and the lookup
  of the IAP entry point are left out).
\<close>

definition FlashTools :: "machine \<Rightarrow> machine" where
  "FlashTools s =
     (let s0 = s\<lparr>efc := EFC0\<rparr>;
          (a, s1) = read_FMR EFC0 s0;
          s2 = s1\<lparr>FWS0 := drop_bit EEFC_FMR_FWS_Pos (a AND EEFC_FMR_FWS_Msk)\<rparr>;
          (b, s3) = read_FMR EFC1 s2;
          s4 = s3\<lparr>FWS1 := drop_bit EEFC_FMR_FWS_Pos (b AND EEFC_FMR_FWS_Msk)\<rparr>;
          (c, s5) = read_FMR EFC0 s4;
          s6 = s5\<lparr>FAM0 := c AND EEFC_FMR_FAM\<rparr>;
          (d, s7) = read_FMR EFC1 s6;
          s8 = s7\<lparr>FAM1 := d AND EEFC_FMR_FAM\<rparr>;
          s9 = write_FMR EFC0 (FLASH_ACCESS_MODE_128 OR EEFC_FMR_FWS CHIP_FLASH_WAIT_STATE) s8;
          s10 = write_FMR EFC1 (FLASH_ACCESS_MODE_128 OR EEFC_FMR_FWS CHIP_FLASH_WAIT_STATE) s9;
          s11 = fold (\<lambda>i t. t\<lparr>uniqueID := (uniqueID t)(i := 0)\<rparr>) [0..<UNIQUE_ID_SIZE] s10;
          s12 = fold (\<lambda>i t. t\<lparr>flash_descriptor := (flash_descriptor t)(i := 0)\<rparr>)
                  [0..<FLASH_DESCRIPTOR_SIZE] s11
      in s12\<lparr>flash_descriptor := (flash_descriptor s12)(FLASH_DESCRIPTOR_SIZE := 0xFFFFFFFF)\<rparr>)"

section \<open>Example machines and property predicates\<close>

text \<open>
  A machine at rest: controller 0 selected, empty caches, zeroed memory and mode
  registers, and hardware that answers every status and result read with 0 (no error
  flag, not ready, no lock or GPNVM bit set).
\<close>

definition idle_machine :: machine where
  "idle_machine =
     \<lparr>efc = EFC0, FWS0 = 0, FWS1 = 0, FAM0 = 0, FAM1 = 0,
      uniqueID = (\<lambda>i. 0), flash_descriptor = (\<lambda>i. 0), page_buffer = (\<lambda>i. 0),
      mem = (\<lambda>a. 0), fmr = (\<lambda>e. 0),
      fsr_in = (\<lambda>e n. 0), fsr_pos = (\<lambda>e. 0),
      frr_in = (\<lambda>e n. 0), frr_pos = (\<lambda>e. 0),
      trace = []\<rparr>"

text \<open>
  What a GPNVM set or clear operation \<open>f\<close> for bit \<open>i\<close> must do, in terms of the
  hardware's answers: \<open>st\<close> is the status after the get-GPNVM command, \<open>v\<close> the result
  register. If the get succeeded and bit \<open>i\<close> of \<open>v\<close> is already \<open>desired\<close>, the
  operation returns \<open>SUCCESS\<close> and the only IAP call is the get. Otherwise exactly one
  more IAP call follows, the programming command \<open>prog\<close> with argument \<open>i\<close>, and its
  status is returned.
\<close>

definition gpnvm_contract :: "(machine \<Rightarrow> u32 \<times> machine) \<Rightarrow> nat \<Rightarrow> bool \<Rightarrow> u32 \<Rightarrow> bool" where
  "gpnvm_contract f i desired prog =
     (\<forall>s. let e = efc s;
              idx = (if e = EFC0 then 0 else 1);
              st = fsr_in s e (fsr_pos s e);
              v = frr_in s e (frr_pos s e);
              get = [IAP_call idx (FULL \<lparr>FCMD = ucast EFC_FCMD_GGPB, FARG = 0, FKEY = 0x5A\<rparr>),
                     Reg_read e EEFC_FSR]
          in (st AND EEFC_ERROR_FLAGS = 0 \<and> bit v i = desired \<longrightarrow>
                fst (f s) = SUCCESS \<and>
                trace (snd (f s)) = trace s @ get @ [Reg_read e EEFC_FRR])
           \<and> (\<not> (st AND EEFC_ERROR_FLAGS = 0 \<and> bit v i = desired) \<longrightarrow>
                fst (f s) = fsr_in s e (Suc (fsr_pos s e)) AND EEFC_ERROR_FLAGS \<and>
                trace (snd (f s)) =
                  trace s @ get @ (if st AND EEFC_ERROR_FLAGS = 0 then [Reg_read e EEFC_FRR] else [])
                    @ [IAP_call idx (FULL \<lparr>FCMD = ucast prog, FARG = of_nat i, FKEY = 0x5A\<rparr>),
                       Reg_read e EEFC_FSR]))"

text \<open>
  The three-part page merge in the spec's words: byte \<open>i\<close> of the page image is the
  flash byte already there before \<open>offset\<close> (prefix) and from \<open>offset + write_size\<close>
  on (suffix), and the caller's byte \<open>i - offset\<close> inside the write window.
\<close>

definition page_image :: "(u32 \<Rightarrow> u8) \<Rightarrow> u32 \<Rightarrow> u32 \<Rightarrow> nat \<Rightarrow> nat \<Rightarrow> nat \<Rightarrow> u8" where
  "page_image m page_address data offset write_size i =
     (if i < offset then m (page_address + of_nat i)
      else if i < offset + write_size then m (data + of_nat (i - offset))
      else m (page_address + of_nat i))"

text \<open>
  A machine whose RAM (addresses from 0x20000000 on) holds the byte 0xAA and whose
  other memory, the flash included, holds 0x11.
\<close>

definition pattern_machine :: machine where
  "pattern_machine = idle_machine\<lparr>mem := (\<lambda>a. if 0x20000000 \<le> a then 0xAA else 0x11)\<rparr>"

text \<open>
  For the lock-bit count. \<open>frr_reads n\<close> is the effect of \<open>n\<close> reads of the result
  register of the selected controller. \<open>islocked_efc\<close> and \<open>islocked_region\<close> name the
  controller and the region index that \<open>islocked\<close> computes for an address.
  \<open>lock_bit s e r\<close> is lock bit \<open>r\<close> of the result stream: bit \<open>r mod 32\<close> of the
  \<open>r div 32\<close>-th word read from now on. \<open>lock_bit_at\<close> is the same seen from inside
  the counting loop, relative to the group \<open>stat\<close> last read.
\<close>

definition frr_reads :: "nat \<Rightarrow> machine \<Rightarrow> machine" where
  "frr_reads n s =
     s\<lparr>frr_pos := (frr_pos s)(efc s := frr_pos s (efc s) + n),
       trace := trace s @ replicate n (Reg_read (efc s) EEFC_FRR)\<rparr>"

definition islocked_efc :: "u32 \<Rightarrow> efc_id" where
  "islocked_efc start_addr = (if start_addr \<ge> IFLASH1_ADDR then EFC1 else EFC0)"

definition islocked_region :: "u32 \<Rightarrow> u32 \<Rightarrow> u16" where
  "islocked_region start_addr addr =
     ucast ((ucast (ucast ((addr - (if start_addr \<ge> IFLASH1_ADDR then IFLASH1_ADDR else IFLASH0_ADDR))
                             div IFLASH_PAGE_SIZE) :: u16) :: u32)
            div (IFLASH_LOCK_REGION_SIZE div IFLASH_PAGE_SIZE))"

definition lock_bit :: "machine \<Rightarrow> efc_id \<Rightarrow> nat \<Rightarrow> bool" where
  "lock_bit s e r = bit (frr_in s e (frr_pos s e + r div 32)) (r mod 32)"

definition group_word :: "u32 \<Rightarrow> machine \<Rightarrow> nat \<Rightarrow> u32" where
  "group_word stat s j = (if j = 0 then stat else frr_in s (efc s) (frr_pos s (efc s) + j - 1))"

definition lock_bit_at :: "u32 \<Rightarrow> machine \<Rightarrow> nat \<Rightarrow> bool" where
  "lock_bit_at stat s q = bit (group_word stat s (q div 32)) (q mod 32)"

text \<open>
  A machine whose lock bits 30, 31, 32 and 34 are set: the first result word read is
  0xC0000000, the second 5.
\<close>

definition locked_machine :: machine where
  "locked_machine =
     idle_machine\<lparr>frr_in := (\<lambda>e n. if n = 0 then 0xC0000000 else if n = 1 then 5 else 0)\<rparr>"

text \<open>
  A machine for the unique ID: the 16 bytes at the base of bank 0 read 0x11, the wait
  state field holds 4, and the status register reads 0 (not ready) at the first read and
  1 (ready) from then on.
\<close>

definition uid_machine :: machine where
  "uid_machine =
     idle_machine\<lparr>mem := (\<lambda>a. if a < 0x00080010 then 0x11 else 0),
                  fmr := (\<lambda>e. 0x400),
                  fsr_in := (\<lambda>e n. if n = 0 then 0 else 1)\<rparr>"

text \<open>
  A machine whose result register answers the get-descriptor command like a 256 KiB
  bank: flash id 0x000F0730, size 0x00040000, page size 256, one plane of 0x00040000
  bytes, 16 lock regions of 0x4000 bytes.
\<close>

definition descriptor_machine :: machine where
  "descriptor_machine =
     idle_machine\<lparr>frr_in := (\<lambda>e n. if n = 0 then 0x000F0730 else if n = 1 then 0x00040000
                                   else if n = 2 then 0x100 else if n = 3 then 1
                                   else if n = 4 then 0x00040000 else if n = 5 then 16
                                   else 0x4000)\<rparr>"

text \<open>
  The pattern machine with wait state 4 in both mode registers and a controller that
  accepts the first command (status 0) and answers every later status read with the
  lock-error flag.
\<close>

definition fail_machine :: machine where
  "fail_machine =
     pattern_machine\<lparr>fmr := (\<lambda>e. 0x400), fsr_in := (\<lambda>e n. if n = 0 then 0 else 4)\<rparr>"

text \<open>
  A machine whose memory reads all ones everywhere, as erased flash does.
\<close>

definition erased_machine :: machine where
  "erased_machine = idle_machine\<lparr>mem := (\<lambda>a. 0xFF)\<rparr>"

text \<open>
  A machine with erased flash whose RAM byte at address \<open>a\<close> holds the low 8 bits of
  \<open>a\<close>: the 256 bytes from 0x20000000 on are 0x00, 0x01, ..., 0xFF.
\<close>

definition ramp_machine :: machine where
  "ramp_machine = idle_machine\<lparr>mem := (\<lambda>a. if 0x20000000 \<le> a then ucast a else 0xFF)\<rparr>"

section \<open>The command protocol: properties\<close>

lemma FULL_fields:
  "take_bit 8 (FULL r) = ucast (FCMD r)"
  "take_bit 16 (drop_bit 8 (FULL r)) = ucast (FARG r)"
  "drop_bit 24 (FULL r) = ucast (FKEY r)"
  unfolding FULL_def
  by (rule bit_word_eqI; auto simp: bit_simps dest: bit_imp_le_length)+

text \<open>\<open>cmd\<close> in one step: one IAP call, one status read, nothing else changes.\<close>

lemma cmd_eq:
  "cmd c a s =
     (fsr_in s (efc s) (fsr_pos s (efc s)) AND EEFC_ERROR_FLAGS,
      s\<lparr>fsr_pos := (fsr_pos s)(efc s := Suc (fsr_pos s (efc s))),
        trace := trace s @ [IAP_call (if efc s = EFC0 then 0 else 1)
                    (FULL \<lparr>FCMD = ucast c, FARG = ucast a, FKEY = ucast FWP_KEY\<rparr>),
                  Reg_read (efc s) EEFC_FSR]\<rparr>)"
  by (simp add: cmd_def IAP_def read_FSR_def FULL_zero_def Let_def)

lemma bit_6_iff: "bit (6::u32) n = (n = 1 \<or> n = 2)"
proof -
  have "(6::u32) = push_bit 1 1 OR push_bit 2 1" by simp
  then show ?thesis by (simp only: bit_simps) auto
qed

lemma error_flags_zero_iff:
  "(x AND EEFC_ERROR_FLAGS = 0) = (\<not> bit x 1 \<and> \<not> bit x 2)" for x :: u32
proof -
  have e: "EEFC_ERROR_FLAGS = 6" by (simp add: reg_consts)
  show ?thesis
  proof
    assume z: "x AND EEFC_ERROR_FLAGS = 0"
    have "bit (x AND 6) 1 = bit x 1" "bit (x AND 6) 2 = bit x 2"
      by (simp_all only: bit_and_iff bit_6_iff) simp_all
    with z e show "\<not> bit x 1 \<and> \<not> bit x 2" by simp
  next
    assume "\<not> bit x 1 \<and> \<not> bit x 2"
    then have "x AND 6 = 0"
      by (intro bit_word_eqI) (auto simp only: bit_and_iff bit_6_iff bit_0_eq)
    with e show "x AND EEFC_ERROR_FLAGS = 0" by simp
  qed
qed

text \<open>
  C7. For every command code \<open>c\<close> and argument \<open>a\<close>, \<open>cmd c a\<close> makes one IAP call, for
  the selected controller, with a command word \<open>w\<close> whose bits 0-7 are those of \<open>c\<close>,
  whose bits 8-23 are bits 0-15 of \<open>a\<close> and whose bits 24-31 are the key 0x5A; it then
  reads the status register once and returns it masked to the command-error and
  lock-error bits, so the result is \<open>SUCCESS\<close> (0) exactly when neither flag is set.
\<close>

theorem cmd_protocol:
  "\<exists>w. trace (snd (cmd c a s)) =
          trace s @ [IAP_call (if efc s = EFC0 then 0 else 1) w, Reg_read (efc s) EEFC_FSR]
     \<and> take_bit 8 w = take_bit 8 c
     \<and> take_bit 16 (drop_bit 8 w) = take_bit 16 a
     \<and> drop_bit 24 w = 0x5A
     \<and> fst (cmd c a s) = fsr_in s (efc s) (fsr_pos s (efc s)) AND (EEFC_FSR_FCMDE OR EEFC_FSR_FLOCKE)
     \<and> (fst (cmd c a s) = SUCCESS) =
         (\<not> bit (fsr_in s (efc s) (fsr_pos s (efc s))) 1 \<and> \<not> bit (fsr_in s (efc s) (fsr_pos s (efc s))) 2)"
  apply (rule exI[of _ "FULL \<lparr>FCMD = ucast c, FARG = ucast a, FKEY = ucast FWP_KEY\<rparr>"])
  apply (simp add: cmd_eq FULL_fields SUCCESS_def error_flags_zero_iff)
  apply (simp add: FWP_KEY_def EEFC_ERROR_FLAGS_def or.commute)
  apply (intro conjI; rule bit_word_eqI; simp add: bit_simps)
  done

section \<open>The GPNVM bits: properties\<close>

lemma and_bit_mask_iff: "(v AND push_bit n 1 \<noteq> 0) = bit v n" for v :: u32
  by (simp add: bit_iff_and_push_bit_not_eq_0)

lemma and_small_masks:
  "(v AND 1 = 0) = (\<not> bit v 0)" "(v AND 2 = 0) = (\<not> bit v (Suc 0))" "(v AND 4 = 0) = (\<not> bit v 2)"
  for v :: u32
proof -
  have "(v AND push_bit 0 1 \<noteq> 0) = bit v 0" by (rule and_bit_mask_iff)
  then show "(v AND 1 = 0) = (\<not> bit v 0)" by auto
  have "(v AND push_bit 1 1 \<noteq> 0) = bit v 1" by (rule and_bit_mask_iff)
  moreover have "push_bit 1 1 = (2::u32)" by simp
  ultimately show "(v AND 2 = 0) = (\<not> bit v (Suc 0))" by auto
  have "(v AND push_bit 2 1 \<noteq> 0) = bit v 2" by (rule and_bit_mask_iff)
  moreover have "push_bit 2 1 = (4::u32)" by simp
  ultimately show "(v AND 4 = 0) = (\<not> bit v 2)" by auto
qed

lemmas gpnvm_simps =
  cmd_eq read_FRR_def Let_def SUCCESS_def FWP_KEY_def and_small_masks

lemma setSecurityBit_contract: "gpnvm_contract setSecurityBit 0 True EFC_FCMD_SGPB"
  unfolding gpnvm_contract_def setSecurityBit_def by (simp add: gpnvm_simps)

lemma setBootModeSAMBA_contract: "gpnvm_contract setBootModeSAMBA 1 False EFC_FCMD_CGPB"
  unfolding gpnvm_contract_def setBootModeSAMBA_def by (simp add: gpnvm_simps)

lemma setBootModeFlash_contract: "gpnvm_contract setBootModeFlash 1 True EFC_FCMD_SGPB"
  unfolding gpnvm_contract_def setBootModeFlash_def by (simp add: gpnvm_simps)

lemma setBootFlash0_contract: "gpnvm_contract setBootFlash0 2 False EFC_FCMD_CGPB"
  unfolding gpnvm_contract_def setBootFlash0_def by (simp add: gpnvm_simps)

lemma setBootFlash1_contract: "gpnvm_contract setBootFlash1 2 True EFC_FCMD_SGPB"
  unfolding gpnvm_contract_def setBootFlash1_def by (simp add: gpnvm_simps)

text \<open>
  C9. Each of the five GPNVM operations (set the security bit, clear or set the boot
  mode bit 1, clear or set the boot flash bit 2) meets \<open>gpnvm_contract\<close>: when the
  get-GPNVM command succeeds and the bit already has the desired value it returns
  \<open>SUCCESS\<close> without a programming command; otherwise it issues exactly one set- or
  clear-bit command with the bit index as argument and returns that command's status.
\<close>

theorem gpnvm_set_idempotent:
  "gpnvm_contract setSecurityBit 0 True EFC_FCMD_SGPB
   \<and> gpnvm_contract setBootModeSAMBA 1 False EFC_FCMD_CGPB
   \<and> gpnvm_contract setBootModeFlash 1 True EFC_FCMD_SGPB
   \<and> gpnvm_contract setBootFlash0 2 False EFC_FCMD_CGPB
   \<and> gpnvm_contract setBootFlash1 2 True EFC_FCMD_SGPB"
  by (intro conjI setSecurityBit_contract setBootModeSAMBA_contract setBootModeFlash_contract
        setBootFlash0_contract setBootFlash1_contract)

text \<open>
  On the idle machine the boot mode bit reads 0: selecting SAM-BA boot (bit 1 clear) is
  already done, selecting flash boot (bit 1 set) takes one set-bit command.
\<close>

theorem gpnvm_set_idempotent_witness:
  "fst (setBootModeSAMBA idle_machine) = SUCCESS
   \<and> trace (snd (setBootModeSAMBA idle_machine)) =
       [IAP_call 0 0x5A00000D, Reg_read EFC0 EEFC_FSR, Reg_read EFC0 EEFC_FRR]
   \<and> fst (setBootModeFlash idle_machine) = 0
   \<and> trace (snd (setBootModeFlash idle_machine)) =
       [IAP_call 0 0x5A00000D, Reg_read EFC0 EEFC_FSR, Reg_read EFC0 EEFC_FRR,
        IAP_call 0 0x5A00010B, Reg_read EFC0 EEFC_FSR]"
  using gpnvm_set_idempotent
  unfolding gpnvm_contract_def
  by (simp add: idle_machine_def Let_def FULL_def cmd_consts SUCCESS_def)

section \<open>read: properties\<close>

lemma read_bounds:
  "IFLASH_LAST_PAGE_ADDRESS + IFLASH_PAGE_SIZE = 0x00100000" "IFLASH0_ADDR = 0x00080000"
  by (simp_all add: flash_consts)

lemma upt_4: "[0..<4] = [0, 1, 2, Suc 2]"
  by (simp add: upt_rec)

text \<open>For \<open>uint8_t\<close> and \<open>uint32_t\<close> the dereference is the byte and the little-endian word.\<close>

lemma deref_u8: "(deref m a :: u8) = m a"
  by (simp add: deref_def)

lemma deref_u32: "(deref m a :: u32) = load32 m a"
  by (simp add: deref_def load32_def word_of_bytes_def upt_4 or.assoc)

text \<open>
  C10, as amended. For every address, \<open>read<Type>\<close> returns the \<open>INVALID\<close> sentinel
  whenever \<open>addr < 0x00080000\<close> or \<open>addr > 0x00100000\<close>, and dereferences the address
  and returns its contents for every \<open>addr\<close> from 0x00080000 through the last byte of
  flash, 0x000FFFFF. The contents can equal the sentinel, so the sentinel is returned
  not only for rejected addresses.
\<close>

theorem read_window:
  "(addr < 0x00080000 \<or> 0x00100000 < addr \<longrightarrow> (read addr s :: 'a::len word) = ucast INVALID)
   \<and> (0x00080000 \<le> addr \<and> addr \<le> 0x000FFFFF \<longrightarrow> (read addr s :: 'a word) = deref (mem s) addr)"
proof -
  have "\<not> (0x00100000 < addr)" if "addr \<le> 0x000FFFFF"
    using that by (simp add: word_less_nat_alt word_le_nat_alt)
  then show ?thesis
    by (auto simp: read_def read_bounds)
qed

text \<open>
  On the pattern machine, whose flash bytes are 0x11: the address 0x00100001 is rejected
  and the last word of the flash is read.
\<close>

theorem read_window_witness:
  "(read 0x00100001 pattern_machine :: u32) = INVALID
   \<and> (read 0x000FFFFC pattern_machine :: u32) = 0x11111111"
  using read_window[of "0x00100001" pattern_machine, where 'a = 32]
        read_window[of "0x000FFFFC" pattern_machine, where 'a = 32]
  by (simp add: deref_u32 load32_def word_of_bytes_def pattern_machine_def idle_machine_def)

text \<open>
  C10 as stated fails: \<open>read\<close> returns \<open>INVALID\<close> not exactly when the address is
  outside the window. On a machine with erased flash the address 0x00080000, inside the
  window, is dereferenced, and the word read there, 0xFFFFFFFF, is the sentinel.
\<close>

theorem read_erased_flash_is_INVALID:
  "(read 0x00080000 erased_machine :: u32) = INVALID
   \<and> \<not> ((0x00080000 :: u32) < 0x00080000 \<or> (0x00100000 :: u32) < 0x00080000)
   \<and> (deref (mem erased_machine) 0x00080000 :: u32) = 0xFFFFFFFF"
  by (simp add: read_def read_bounds INVALID_def deref_u32 load32_def word_of_bytes_def
        erased_machine_def idle_machine_def)

text \<open>
  The bound 0x00100000 itself, the first address past the flash, passes the test of
  \<open>read\<close>, which is \<open>>\<close> where the test of \<open>write\<close> is \<open>>=\<close>.
\<close>

lemma read_accepts_bound:
  "(read 0x00100000 s :: 'a::len word) = deref (mem s) 0x00100000"
  by (simp add: read_def read_bounds)

section \<open>Bytes, words and the page store\<close>

lemma byte_of_word_of_bytes:
  "byte_of (word_of_bytes b0 b1 b2 b3) 0 = b0"
  "byte_of (word_of_bytes b0 b1 b2 b3) (Suc 0) = b1"
  "byte_of (word_of_bytes b0 b1 b2 b3) 2 = b2"
  "byte_of (word_of_bytes b0 b1 b2 b3) 3 = b3"
  unfolding byte_of_def word_of_bytes_def
  by (rule bit_word_eqI; auto simp: bit_simps dest: bit_imp_le_length)+

lemma word_of_bytes_byte_of:
  "word_of_bytes (byte_of w 0) (byte_of w 1) (byte_of w 2) (byte_of w 3) = w"
  unfolding byte_of_def word_of_bytes_def
  apply (rule bit_word_eqI)
  apply (auto simp: bit_simps)
  subgoal for n by (cases "n < 24") auto
  done

lemma load32_store32_same: "load32 (store32 m a w) a = w"
proof -
  have d: "a + 1 \<noteq> a" "a + 2 \<noteq> a" "a + 3 \<noteq> a" "a + 2 \<noteq> a + 1" "a + 3 \<noteq> a + 1" "a + 3 \<noteq> a + 2"
    by simp_all
  show ?thesis
    using d by (simp add: load32_def store32_def word_of_bytes_byte_of[simplified])
qed

text \<open>A word store seen from any address \<open>a\<close>: it covers the four bytes from \<open>b\<close> on.\<close>

lemma store32_apply:
  "store32 m b w a = (if unat (a - b) < 4 then byte_of w (unat (a - b)) else m a)"
proof -
  have k: "a = b + k \<longleftrightarrow> a - b = k" for k :: u32 by auto
  have u: "(a - b = 0) = (unat (a - b) = 0)" "(a - b = 1) = (unat (a - b) = 1)"
      "(a - b = 2) = (unat (a - b) = 2)" "(a - b = 3) = (unat (a - b) = 3)"
    by (simp_all add: word_unat_eq_iff)
  have c: "unat (a - b) < 4 \<longleftrightarrow> unat (a - b) = 0 \<or> unat (a - b) = 1 \<or> unat (a - b) = 2 \<or> unat (a - b) = 3"
    by arith
  have u0: "(unat (a - b) = 0) = (a = b)" by (simp add: unat_eq_0)
  show ?thesis
    unfolding store32_def c
    by (auto simp: k u u0 fun_upd_def)
qed

lemma byte_of_page_buffer_word:
  "k < 4 \<Longrightarrow> byte_of (page_buffer_word pb t) k = pb (4 * t + k)"
proof -
  assume "k < 4"
  then have "k = 0 \<or> k = Suc 0 \<or> k = 2 \<or> k = 3" by arith
  then show ?thesis
    by (auto simp: page_buffer_word_def byte_of_word_of_bytes)
qed

lemma unat_sub_of_nat:
  fixes x :: u32
  assumes "k < 2 ^ 32"
  shows "unat (x - of_nat k) = (if k \<le> unat x then unat x - k else unat x + 2 ^ 32 - k)"
proof -
  have "unat (of_nat k :: u32) = k" using assms by (simp add: unat_of_nat)
  then show ?thesis by (simp add: unat_sub_if_size word_size)
qed

lemma store32_apply_page:
  fixes pa a :: u32
  assumes "4 * n + 4 \<le> 2 ^ 32"
  shows "store32 m (pa + 4 * of_nat n) (page_buffer_word pb n) a =
           (if 4 * n \<le> unat (a - pa) \<and> unat (a - pa) < 4 * n + 4 then pb (unat (a - pa)) else m a)"
proof -
  have e: "a - (pa + 4 * of_nat n) = (a - pa) - of_nat (4 * n)" by simp
  have lt: "4 * n < 2 ^ 32" using assms by simp
  have b: "unat (a - pa) < 2 ^ 32" using unsigned_less[of "a - pa"] by simp
  show ?thesis
    unfolding store32_apply e unat_sub_of_nat[OF lt]
    using assms b by (auto simp: byte_of_page_buffer_word)
qed

text \<open>The word-wise copy of the page buffer to \<open>pa\<close>, seen from any address.\<close>

lemma store_words_apply:
  fixes pa a :: u32
  shows "4 * n \<le> 2 ^ 32 \<Longrightarrow>
    fold (\<lambda>t m. store32 m (pa + 4 * of_nat t) (page_buffer_word pb t)) [0..<n] m a =
      (if unat (a - pa) < 4 * n then pb (unat (a - pa)) else m a)"
proof (induction n)
  case 0
  then show ?case by simp
next
  case (Suc n)
  then have "4 * n + 4 \<le> 2 ^ 32" "4 * n \<le> 2 ^ 32" by simp_all
  with Suc.IH show ?case
    by (simp add: store32_apply_page del: of_nat_mult of_nat_Suc)
qed

section \<open>The page write engine: properties\<close>

lemma flashcpy_NULL:
  "page_address = NULL \<or> write_data = NULL \<Longrightarrow>
     flashcpy page_address write_data offset write_size padding_size s = (NULL, s)"
  by (auto simp: flashcpy_def Let_def)

lemma addr_shift:
  fixes pa off ws :: u32
  shows "unat off + unat ws \<le> i \<Longrightarrow>
    pa + off + ws + of_nat (i - (unat off + unat ws)) = pa + of_nat i"
  by (simp add: of_nat_diff)

lemma flashcpy_parts:
  "fold (flashcpy_part m wd (\<lambda>i::nat. if i = 0 then off else if i = 1 then ws else pad)) [0, 1, 2] (0, pa, pb) =
     (unat off + unat ws + unat pad, pa + off + ws + pad,
      (\<lambda>i. if i < unat off + unat ws + unat pad then page_image m pa wd (unat off) (unat ws) i else pb i))"
proof -
  have "(if unat off + unat ws \<le> i \<and> i < unat off + unat ws + unat pad
         then bytes_at m (pa + off + ws) (i - (unat off + unat ws))
         else if unat off \<le> i \<and> i < unat off + unat ws then bytes_at m wd (i - unat off)
         else if i < unat off then bytes_at m pa i else pb i) =
        (if i < unat off + unat ws + unat pad then page_image m pa wd (unat off) (unat ws) i else pb i)"
    for i
    using addr_shift[of off ws i pa]
    by (auto simp: bytes_at_def page_image_def)
  then show ?thesis
    by (simp add: flashcpy_part_def memcpy_page_buffer_def cong: if_cong)
qed


lemma words_per_page: "unat IFLASH_WORDS_PER_PAGE = 64"
  by (simp add: flash_consts)

lemma flashcpy_eq:
  assumes "page_address \<noteq> NULL" "write_data \<noteq> NULL"
  shows "flashcpy page_address write_data offset write_size padding_size s =
     (page_address,
      s\<lparr>page_buffer :=
          (\<lambda>i. if i < unat offset + unat write_size + unat padding_size
               then page_image (mem s) page_address write_data (unat offset) (unat write_size) i
               else page_buffer s i),
        mem :=
          (\<lambda>a. if unat (a - page_address) < 256
               then (if unat (a - page_address) < unat offset + unat write_size + unat padding_size
                     then page_image (mem s) page_address write_data (unat offset) (unat write_size)
                            (unat (a - page_address))
                     else page_buffer s (unat (a - page_address)))
               else mem s a)\<rparr>)"
proof -
  have m: "fold (\<lambda>t m. store32 m (page_address + 4 * of_nat t) (page_buffer_word pb t)) [0..<64] m0 =
           (\<lambda>a. if unat (a - page_address) < 256 then pb (unat (a - page_address)) else m0 a)"
    for pb m0
    by (rule ext) (simp add: store_words_apply)
  show ?thesis
    unfolding flashcpy_def Let_def flashcpy_parts words_per_page
    using assms by (simp add: m)
qed


lemma write_sizes:
  fixes offset :: u16 and data_size :: u32
  assumes "offset < 256" "0 < data_size"
  defines "ws \<equiv> (if IFLASH_PAGE_SIZE - ucast offset < data_size then IFLASH_PAGE_SIZE - ucast offset else data_size)"
  shows "unat (ucast offset :: u32) = unat offset"
    and "0 < unat ws" and "unat ws \<le> unat data_size" and "unat offset + unat ws \<le> 256"
    and "(ucast (ucast (IFLASH_PAGE_SIZE - ucast offset - ws) :: u16) :: u32) = IFLASH_PAGE_SIZE - ucast offset - ws"
    and "unat (IFLASH_PAGE_SIZE - ucast offset - ws) = 256 - unat offset - unat ws"
    and "ws = min (IFLASH_PAGE_SIZE - ucast offset) data_size"
proof -
  have o: "unat offset < 256" using assms(1) by (simp add: word_less_nat_alt)
  show uo: "unat (ucast offset :: u32) = unat offset"
    using o by (simp add: unsigned_ucast_eq take_bit_nat_eq_self)
  have p: "unat (IFLASH_PAGE_SIZE - ucast offset :: u32) = 256 - unat offset"
    using o uo by (simp add: IFLASH_PAGE_SIZE_def unat_sub_if_size word_size)
  have d: "0 < unat data_size" using assms(2) by (simp add: word_less_nat_alt)
  show w0: "0 < unat ws" using p d o by (simp add: ws_def)
  show wd: "unat ws \<le> unat data_size" using p by (simp add: ws_def word_less_nat_alt)
  show wl: "unat offset + unat ws \<le> 256" using p o by (auto simp: ws_def word_less_nat_alt)
  have "unat ws \<le> unat (IFLASH_PAGE_SIZE - ucast offset :: u32)"
    using p wl o by simp
  then show q: "unat (IFLASH_PAGE_SIZE - ucast offset - ws) = 256 - unat offset - unat ws"
    using p by (simp add: unat_sub_if_size word_size)
  have "unat (IFLASH_PAGE_SIZE - ucast offset - ws) < 2 ^ 16" using q by simp
  then show "(ucast (ucast (IFLASH_PAGE_SIZE - ucast offset - ws) :: u16) :: u32) = IFLASH_PAGE_SIZE - ucast offset - ws"
    by (simp add: word_unat_eq_iff unsigned_ucast_eq unsigned_take_bit_eq take_bit_nat_eq_self)
  show "ws = min (IFLASH_PAGE_SIZE - ucast offset) data_size"
    by (auto simp: ws_def min_def)
qed


lemma page_address_not_NULL:
  fixes page_num :: u16
  assumes "FLASH_START_ADDR = IFLASH0_ADDR \<or> FLASH_START_ADDR = IFLASH1_ADDR"
  shows "FLASH_START_ADDR + ucast page_num * IFLASH_PAGE_SIZE \<noteq> NULL"
proof -
  have p: "unat page_num < 65536" using unsigned_less[of page_num] by simp
  then have u: "unat (ucast page_num :: u32) = unat page_num"
    by (simp add: unsigned_ucast_eq take_bit_nat_eq_self)
  have m: "unat ((ucast page_num :: u32) * 256) = unat page_num * 256"
    using p u by (simp add: unat_word_ariths)
  have "unat (FLASH_START_ADDR + ucast page_num * 256) = unat FLASH_START_ADDR + unat page_num * 256"
    using assms p m by (auto simp: unat_word_ariths flash_consts)
  moreover have "0 < unat FLASH_START_ADDR" using assms by (auto simp: flash_consts)
  ultimately show ?thesis
    by (auto simp: NULL_def IFLASH_PAGE_SIZE_def word_unat_eq_iff)
qed

text \<open>
  One round of the page loop of \<open>write\<close>. For a non-null data pointer and
  a remaining size above 0, one round of the loop (\<open>offset\<close> below the page size, as
  \<open>write\<close> computes it) takes \<open>write_size = min (page_size - offset) data_size\<close> and
  \<open>padding_size = page_size - offset - write_size\<close>, which with \<open>offset\<close> add up to the
  256 bytes of a page; fills the page buffer with, in order, \<open>offset\<close> bytes of the
  current flash content from the page's start, \<open>write_size\<close> bytes from the caller's
  data and \<open>padding_size\<close> bytes of the current flash content after the write window;
  stores the whole buffer to the page and issues the page command with the page
  number; and, the command succeeding, goes on with the next page, \<open>offset\<close> 0, the
  data pointer advanced by \<open>write_size / sizeof(Type)\<close> elements and the size reduced
  by \<open>write_size\<close>. So the bytes of the page outside \<open>[offset, offset + write_size)\<close>
  keep their values, and so does all memory outside the page.
\<close>

lemma write_pages_merges_page:
  fixes offset page_num :: u16
  assumes "data \<noteq> NULL" and "0 < data_size" and "offset < 256"
    and "FLASH_START_ADDR = IFLASH0_ADDR \<or> FLASH_START_ADDR = IFLASH1_ADDR"
  shows
    "let write_size = min (IFLASH_PAGE_SIZE - ucast offset) data_size;
         padding_size = IFLASH_PAGE_SIZE - ucast offset - write_size;
         page_address = FLASH_START_ADDR + ucast page_num * IFLASH_PAGE_SIZE;
         s1 = snd (flashcpy page_address data (ucast offset) write_size padding_size s);
         c = (if erase \<and> lock then EFC_FCMD_EWPL else if erase then EFC_FCMD_EWP else EFC_FCMD_WP);
         s2 = snd (cmd c (ucast page_num) s1)
     in unat offset + unat write_size + unat padding_size = 256
      \<and> (\<forall>i<256. page_buffer s1 i =
            (if i < unat offset then mem s (page_address + of_nat i)
             else if i < unat offset + unat write_size then mem s (data + of_nat (i - unat offset))
             else mem s (page_address + of_nat i)))
      \<and> (\<forall>a. mem s1 a =
            (if unat (a - page_address) < 256 then page_buffer s1 (unat (a - page_address)) else mem s a))
      \<and> (\<forall>i<256. i < unat offset \<or> unat offset + unat write_size \<le> i \<longrightarrow>
            mem s1 (page_address + of_nat i) = mem s (page_address + of_nat i))
      \<and> trace s2 = trace s @
            [IAP_call (if efc s = EFC0 then 0 else 1)
               (FULL \<lparr>FCMD = ucast c, FARG = page_num, FKEY = 0x5A\<rparr>),
             Reg_read (efc s) EEFC_FSR]
      \<and> write_pages tsz FLASH_START_ADDR erase lock page_num offset data data_size s =
            (if fst (cmd c (ucast page_num) s1) \<noteq> SUCCESS
             then (let (v, s3) = read_FSR (efc s2) s2 in Some (Return (v AND EEFC_ERROR_FLAGS), s3))
             else write_pages tsz FLASH_START_ADDR erase lock (page_num + 1) 0
                    (data + (write_size div tsz) * tsz) (data_size - write_size) s2)"
proof -
  define ws where "ws = (if IFLASH_PAGE_SIZE - ucast offset < data_size then IFLASH_PAGE_SIZE - ucast offset else data_size)"
  define pad where "pad = IFLASH_PAGE_SIZE - ucast offset - ws"
  define pa where "pa = FLASH_START_ADDR + ucast page_num * IFLASH_PAGE_SIZE"
  note sz = write_sizes[OF assms(3) assms(2), folded ws_def]
  have pa0: "pa \<noteq> NULL" unfolding pa_def by (rule page_address_not_NULL[OF assms(4)])
  have sum: "unat (ucast offset :: u32) + unat ws + unat pad = 256"
    using sz by (simp add: pad_def)
  note fc = flashcpy_eq[OF pa0 assms(1), of "ucast offset" ws pad s, unfolded sum]
  have unf: "write_pages tsz FLASH_START_ADDR erase lock page_num offset data data_size s =
       (let (p, s1) = flashcpy pa data (ucast offset) ws pad s;
            (r, s2) = cmd (if erase \<and> lock then EFC_FCMD_EWPL else if erase then EFC_FCMD_EWP else EFC_FCMD_WP)
                          (ucast page_num) s1
        in if r \<noteq> SUCCESS
           then (let (v, s3) = read_FSR (efc s2) s2 in Some (Return (v AND EEFC_ERROR_FLAGS), s3))
           else write_pages tsz FLASH_START_ADDR erase lock (page_num + 1) 0
                  (data + (ws div tsz) * tsz) (data_size - ws) s2)"
    apply (subst write_pages.simps)
    using assms(2) sz(5) by (simp add: Let_def ws_def[symmetric] pad_def[symmetric] pa_def[symmetric])
  have nat_addr: "unat (of_nat i :: u32) = i" if "i < 256" for i
    using that by (simp add: unat_of_nat)
  show ?thesis
    unfolding sz(7)[symmetric] Let_def pad_def[symmetric] pa_def[symmetric]
    apply (intro conjI)
    subgoal using sz by (simp add: pad_def)
    subgoal by (simp add: fc page_image_def sz(1))
    subgoal by (simp add: fc)
    subgoal by (auto simp: fc nat_addr page_image_def sz(1))
    subgoal by (simp add: cmd_eq fc FWP_KEY_def ucast_up_ucast_id is_up)
    subgoal by (simp add: unf split_def Let_def)
    done
qed


text \<open>
  On the pattern machine: writing 16 bytes of RAM (0xAA) at offset 16 of page 0 of bank
  0 leaves the 16 bytes before and the 224 bytes after the window at their old value
  0x11, as well as the next page, and the loop goes on with page 1.
\<close>

lemma write_pages_merges_page_example:
  "(let s1 = snd (flashcpy 0x00080000 0x20000000 16 16 224 pattern_machine)
    in mem s1 0x0008000F = 0x11 \<and> mem s1 0x00080010 = 0xAA \<and> mem s1 0x0008001F = 0xAA
     \<and> mem s1 0x00080020 = 0x11 \<and> mem s1 0x000800FF = 0x11 \<and> mem s1 0x00080100 = 0x11
     \<and> write_pages 1 IFLASH0_ADDR True False 0 16 0x20000000 16 pattern_machine =
         write_pages 1 IFLASH0_ADDR True False 1 0 0x20000010 0 (snd (cmd EFC_FCMD_EWP 0 s1)))"
proof -
  have h: "(0x20000000::u32) \<noteq> NULL" "(0::u32) < 16" "(16::u16) < 256"
      "IFLASH0_ADDR = IFLASH0_ADDR \<or> IFLASH0_ADDR = IFLASH1_ADDR"
    by (simp_all add: NULL_def)
  have c: "fst (cmd EFC_FCMD_EWP 0 s) = fsr_in s (efc s) (fsr_pos s (efc s)) AND EEFC_ERROR_FLAGS" for s
    by (simp add: cmd_eq)
  have f: "fsr_in (snd (flashcpy 0x00080000 0x20000000 16 16 224 pattern_machine)) = (\<lambda>e n. 0)"
    by (simp add: flashcpy_eq NULL_def pattern_machine_def idle_machine_def)
  show ?thesis
    using write_pages_merges_page[OF h, of 0 pattern_machine True False 1]
    apply (simp add: Let_def flash_consts min_def SUCCESS_def c f)
    apply (simp add: pattern_machine_def idle_machine_def)
    done
qed


section \<open>The lock region manager: properties\<close>

lemma frr_reads_0: "frr_reads 0 s = s"
  by (simp add: frr_reads_def)

lemma frr_reads_Suc: "frr_reads n (snd (read_FRR (efc s) s)) = frr_reads (Suc n) s"
  by (simp add: frr_reads_def read_FRR_def replicate_app_Cons_same)

lemma frr_reads_fields:
  "efc (frr_reads n s) = efc s" "frr_in (frr_reads n s) = frr_in s"
  "frr_pos (frr_reads n s) e = (if e = efc s then frr_pos s e + n else frr_pos s e)"
  by (simp_all add: frr_reads_def)

lemma unat_ucast_16_32: "unat (ucast (x :: u16) :: u32) = unat x"
proof -
  have "unat x < 65536" using unsigned_less[of x] by simp
  then show ?thesis by (simp add: unsigned_ucast_eq take_bit_nat_eq_self)
qed

lemma unat_u16_less: "unat (x :: u16) < 65536"
  using unsigned_less[of x] by simp

lemma islocked_skip_eq:
  fixes sr :: u16 and involved :: u32
  shows "unat involved = 32 * k \<Longrightarrow> k + d = unat sr div 32 \<Longrightarrow>
    islocked_skip sr involved stat s =
      Some (of_nat (32 * (unat sr div 32)),
            (if d = 0 then stat else frr_in s (efc s) (frr_pos s (efc s) + d - 1)),
            frr_reads d s)"
proof (induction d arbitrary: k involved stat s)
  case 0
  note sr = unat_ucast_16_32[of sr]
  have i32: "unat (involved + READ_SIZE) = 32 * k + 32"
    using 0 unat_u16_less[of sr] by (simp add: unat_word_ariths READ_SIZE_def)
  have "involved \<le> ucast sr \<and> ucast sr < involved + READ_SIZE"
    using 0 sr i32 by (simp add: word_le_nat_alt word_less_nat_alt) 
  moreover have "involved = of_nat (32 * k)" using 0 by (metis of_nat_unat ucast_id)
  ultimately show ?case using 0
    by (subst islocked_skip.simps) (simp add: frr_reads_0)
next
  case (Suc d)
  note sr = unat_ucast_16_32[of sr]
  have lt: "32 * k + 32 \<le> unat sr" using Suc.prems by arith
  have i32: "unat (involved + READ_SIZE) = 32 * (Suc k)"
    using Suc.prems unat_u16_less[of sr] lt by (simp add: unat_word_ariths READ_SIZE_def)
  have n: "\<not> (involved \<le> ucast sr \<and> ucast sr < involved + READ_SIZE)"
    using Suc.prems sr i32 lt by (simp add: word_le_nat_alt word_less_nat_alt)
  have k': "Suc k + d = unat sr div 32" using Suc.prems by simp
  show ?case
    apply (subst islocked_skip.simps)
    apply (simp add: n split_def Suc.IH[OF i32 k'] frr_reads_Suc)
    apply (cases d; simp add: read_FRR_def Let_def)
    done
qed


lemma lock_bit_at_shift:
  "lock_bit_at stat s (q + 32) =
     lock_bit_at (frr_in s (efc s) (frr_pos s (efc s))) (snd (read_FRR (efc s) s)) q"
proof -
  have "(q + 32) div 32 = Suc (q div 32)" by simp
  then show ?thesis
    by (simp add: lock_bit_at_def group_word_def read_FRR_def)
qed

lemma and_exp_mask_iff: "(v AND 2 ^ n \<noteq> 0) = bit v n" for v :: u32
  using and_bit_mask_iff[of v n] by simp

lemma islocked_count_eq:
  "unat b < 32 \<Longrightarrow>
   islocked_count n b stat locked s =
     (locked + of_nat (length (filter (lock_bit_at stat s) [unat b ..< unat b + n])),
      frr_reads ((unat b + n) div 32) s)"
proof (induction n arbitrary: b stat locked s)
  case 0
  then show ?case by (simp add: frr_reads_0)
next
  case (Suc n)
  define locked' where "locked' = (if lock_bit_at stat s (unat b) then locked + 1 else locked)"
  have "lock_bit_at stat s (unat b) = bit stat (unat b)"
    using Suc.prems by (simp add: lock_bit_at_def group_word_def)
  with and_exp_mask_iff[of stat "unat b"]
  have here: "(stat AND 2 ^ unat b = 0) = (\<not> lock_bit_at stat s (unat b))"
    by blast
  have up: "[unat b ..< unat b + Suc n] = unat b # [Suc (unat b) ..< Suc (unat b) + n]"
    by (simp add: upt_rec)
  have cnt: "locked + of_nat (length (filter (lock_bit_at stat s) [unat b ..< unat b + Suc n])) =
             locked' + of_nat (length (filter (lock_bit_at stat s) [Suc (unat b) ..< Suc (unat b) + n]))"
    unfolding up locked'_def by simp
  show ?case
  proof (cases "b + 1 = READ_SIZE")
    case True
    then have b31: "unat b = 31"
      using Suc.prems by (simp add: READ_SIZE_def word_unat_eq_iff unat_word_ariths)
    define v where "v = frr_in s (efc s) (frr_pos s (efc s))"
    define s1 where "s1 = snd (read_FRR (efc s) s)"
    have rd: "read_FRR (efc s) s = (v, s1)" by (simp add: v_def s1_def read_FRR_def)
    have step: "islocked_count (Suc n) b stat locked s = islocked_count n 0 v locked' s1"
      using True by (simp add: Let_def rd here locked'_def)
    have sh: "[32 ..< 32 + n] = map (\<lambda>q. q + 32) [0 ..< n]"
      by (simp add: map_add_upt add.commute)
    have len: "length (filter (lock_bit_at stat s) [32 ..< 32 + n]) =
               length (filter (lock_bit_at v s1) [0 ..< n])"
      unfolding sh v_def s1_def by (simp add: filter_map o_def lock_bit_at_shift)
    have d: "(unat b + Suc n) div 32 = Suc (n div 32)" using b31 by simp
    have ih: "islocked_count n 0 v locked' s1 =
        (locked' + of_nat (length (filter (lock_bit_at v s1) [0 ..< n])), frr_reads (Suc (n div 32)) s)"
      using Suc.IH[of 0 v locked' s1] by (simp add: frr_reads_Suc s1_def)
    show ?thesis
      unfolding step ih cnt d using b31 len by simp
  next
    case False
    then have b1: "unat (b + 1) = Suc (unat b)" "Suc (unat b) < 32"
      using Suc.prems by (auto simp: READ_SIZE_def word_unat_eq_iff unat_word_ariths)
    have step: "islocked_count (Suc n) b stat locked s = islocked_count n (b + 1) stat locked' s"
      using False by (simp add: Let_def here locked'_def)
    have d: "(unat b + Suc n) div 32 = (Suc (unat b) + n) div 32" by simp
    show ?thesis
      unfolding step cnt d using Suc.IH[of "b + 1" stat locked' s] b1 by simp
  qed
qed


lemma frr_reads_add: "frr_reads a (frr_reads b s) = frr_reads (b + a) s"
  by (simp add: frr_reads_def replicate_add add.assoc)

lemma frr_reads_read: "frr_reads n (snd (read_FRR (efc s) s)) = frr_reads (Suc n) s"
  by (rule frr_reads_Suc)

lemma lock_bit_at_lock_bit:
  assumes "efc s = e"
  shows "lock_bit_at (frr_in s e (frr_pos s e + g)) (frr_reads (Suc g) s) q = lock_bit s e (q + 32 * g)"
proof -
  have "(q + 32 * g) div 32 = q div 32 + g" "(q + 32 * g) mod 32 = q mod 32" by simp_all
  then show ?thesis
    using assms by (simp add: lock_bit_at_def lock_bit_def group_word_def frr_reads_def ac_simps)
qed

lemma upt_shift: "map (\<lambda>q. q + k) [a..<b] = [a + k..<b + k]"
  by (induction b) auto

text \<open>\<open>islocked\<close> in closed form, for \<open>start_region \<le> end_region\<close> and a successful command.\<close>

lemma islocked_result:
  fixes start_addr end_addr :: u32
  defines "e \<equiv> islocked_efc start_addr"
  defines "sr \<equiv> islocked_region start_addr start_addr"
  defines "er \<equiv> islocked_region start_addr end_addr"
  assumes ok: "fsr_in s e (fsr_pos s e) AND EEFC_ERROR_FLAGS = 0"
    and le: "sr \<le> er"
  shows "islocked start_addr end_addr s =
           Some (of_nat (length (filter (lock_bit s e) [unat sr ..< Suc (unat er)])),
                 frr_reads (Suc (Suc (unat er) div 32)) (snd (cmd EFC_FCMD_GLB 0 (s\<lparr>efc := e\<rparr>))))"
proof -
  define g where "g = unat sr div 32"
  define n where "n = Suc (unat er) - unat sr"
  define s1 where "s1 = snd (cmd EFC_FCMD_GLB 0 (s\<lparr>efc := e\<rparr>))"
  have le': "unat sr \<le> unat er" using le by (simp add: word_le_nat_alt)
  have e1: "efc s1 = e" "frr_in s1 = frr_in s" "frr_pos s1 = frr_pos s"
    by (simp_all add: s1_def cmd_eq)
  have c: "cmd EFC_FCMD_GLB 0 (s\<lparr>efc := e\<rparr>) = (SUCCESS, s1)"
    using ok by (simp add: s1_def cmd_eq SUCCESS_def)
  have idx: "unat ((ucast er :: u32) - ucast sr + 1) = n"
    using le' unat_u16_less[of er] unat_u16_less[of sr]
    by (simp add: n_def unat_word_ariths unat_sub_if_size word_size unat_ucast_16_32)
  have b: "unat ((ucast sr :: u32) - of_nat (32 * g)) = unat sr mod 32"
  proof -
    have "32 * g \<le> unat sr" by (simp add: g_def)
    moreover have "32 * g < 2 ^ 32" using unat_u16_less[of sr] calculation by simp
    ultimately have "unat ((ucast sr :: u32) - of_nat (32 * g)) = unat sr - 32 * g"
      using unat_sub_of_nat[of "32 * g" "ucast sr"] by (simp only: unat_ucast_16_32 if_True)
    then show ?thesis
      by (simp add: g_def minus_mult_div_eq_mod)
  qed
  define s2 where "s2 = snd (read_FRR e s1)"
  define stat where "stat = frr_in s e (frr_pos s e + g)"
  define s3 where "s3 = frr_reads (Suc g) s1"
  have rd: "read_FRR (efc s1) s1 = (frr_in s e (frr_pos s e), s2)"
    by (simp add: s2_def read_FRR_def e1)
  have s2f: "efc s2 = e" "frr_in s2 = frr_in s" "frr_pos s2 e = Suc (frr_pos s e)"
    by (simp_all add: s2_def read_FRR_def e1)
  have r2: "frr_reads g s2 = s3"
    unfolding s2_def s3_def using frr_reads_Suc[of g s1] by (simp add: e1)
  have st: "(if g = 0 then frr_in s e (frr_pos s e)
             else frr_in s2 (efc s2) (frr_pos s2 (efc s2) + g - 1)) = stat"
    by (simp add: s2f stat_def)
  have sk: "islocked_skip sr 0 (frr_in s e (frr_pos s e)) s2 = Some (of_nat (32 * g), stat, s3)"
    using islocked_skip_eq[of 0 0 g sr "frr_in s e (frr_pos s e)" s2]
    by (simp only: st r2 g_def[symmetric]) simp
  have cn: "islocked_count n (ucast sr - of_nat (32 * g)) stat 0 s3 =
      (of_nat (length (filter (lock_bit_at stat s3) [unat sr mod 32 ..< unat sr mod 32 + n])),
       frr_reads ((unat sr mod 32 + n) div 32) s3)"
    using islocked_count_eq[of "ucast sr - of_nat (32 * g)" n stat 0 s3]
    by (simp only: b) simp
  have total: "unat sr mod 32 + n + 32 * g = Suc (unat er)"
    using le' by (simp add: n_def g_def)
  have lb: "lock_bit_at stat s3 q = lock_bit s e (q + 32 * g)" for q
    using lock_bit_at_lock_bit[of s1 e g q] e1
    by (simp add: stat_def s3_def lock_bit_def)
  have E: "[unat sr ..< Suc (unat er)] = map (\<lambda>q. q + 32 * g) [unat sr mod 32 ..< unat sr mod 32 + n]"
  proof -
    have "unat sr = unat sr mod 32 + 32 * g" by (simp add: g_def)
    then show ?thesis
      using total upt_shift[of "32 * g" "unat sr mod 32" "unat sr mod 32 + n"] by simp
  qed
  have lb': "lock_bit_at stat s3 = (\<lambda>q. lock_bit s e (q + 32 * g))"
    by (rule ext) (rule lb)
  have A: "length (filter (lock_bit s e) [unat sr ..< Suc (unat er)]) =
        length (filter (lock_bit_at stat s3) [unat sr mod 32 ..< unat sr mod 32 + n])"
    unfolding E lb' by (simp add: filter_map o_def)
  have "(unat sr mod 32 + n) div 32 + g = Suc (unat er) div 32"
    using total by (metis add.commute div_mult_self2 zero_neq_numeral)
  then have B: "frr_reads ((unat sr mod 32 + n) div 32) s3 = frr_reads (Suc (Suc (unat er) div 32)) s1"
    by (simp add: s3_def frr_reads_add add.commute)
  show ?thesis
    unfolding islocked_def Let_def
    apply (fold e_def[unfolded islocked_efc_def] sr_def[unfolded islocked_region_def] er_def[unfolded islocked_region_def])
    apply (simp add: c rd sk idx cn A[symmetric] B del: of_nat_mult upt_Suc)
    done
qed

text \<open>
  C2. When the get-lock-bits command succeeds, \<open>islocked\<close> returns exactly the number
  of set lock bits among the regions \<open>start_region\<close> to \<open>end_region\<close> inclusive (for
  \<open>start_region \<le> end_region\<close>, as for every address range within one bank). It reads
  the result register \<open>1 + (end_region + 1) div 32\<close> times in sequence, at least once,
  and does nothing else after the command: the groups before \<open>start_region\<close>'s are
  skipped whole, and the next group is read whenever the bit cursor passes position
  31. Regions 30 to 34 take two reads.
\<close>

theorem islocked_counts_lock_bits:
  fixes start_addr end_addr :: u32
  assumes "fsr_in s (islocked_efc start_addr) (fsr_pos s (islocked_efc start_addr))
             AND EEFC_ERROR_FLAGS = 0"
    and "islocked_region start_addr start_addr \<le> islocked_region start_addr end_addr"
  shows "islocked start_addr end_addr s =
           Some (of_nat (length (filter (lock_bit s (islocked_efc start_addr))
                                   [unat (islocked_region start_addr start_addr) ..<
                                    Suc (unat (islocked_region start_addr end_addr))])),
                 frr_reads (Suc (Suc (unat (islocked_region start_addr end_addr)) div 32))
                   (snd (cmd EFC_FCMD_GLB 0 (s\<lparr>efc := islocked_efc start_addr\<rparr>))))"
  using assms by (rule islocked_result)

text \<open>
  The region index in natural numbers, and the hypothesis of the theorem for a range
  within one bank: the regions are in order, and below 16.
\<close>

lemma islocked_region_nat:
  fixes start_addr addr :: u32
  defines "base \<equiv> (if start_addr \<ge> IFLASH1_ADDR then IFLASH1_ADDR else IFLASH0_ADDR)"
  assumes "base \<le> addr" "unat addr - unat base < 2 ^ 24"
  shows "unat (islocked_region start_addr addr) = (unat addr - unat base) div 256 div 64"
proof -
  have s: "unat (addr - base) = unat addr - unat base"
    using assms(2) by (simp add: unat_sub)
  have p: "unat ((addr - base) div IFLASH_PAGE_SIZE) = (unat addr - unat base) div 256"
    by (simp add: unat_div s IFLASH_PAGE_SIZE_def)
  have pl: "(unat addr - unat base) div 256 < 65536" using assms(3) by simp
  have p16: "unat (ucast ((addr - base) div IFLASH_PAGE_SIZE) :: u16) = (unat addr - unat base) div 256"
    using pl by (simp add: unsigned_ucast_eq p take_bit_nat_eq_self)
  have r: "unat ((ucast (ucast ((addr - base) div IFLASH_PAGE_SIZE) :: u16) :: u32)
                  div (IFLASH_LOCK_REGION_SIZE div IFLASH_PAGE_SIZE)) = (unat addr - unat base) div 256 div 64"
    by (simp add: unat_div unat_ucast_16_32 p16[unfolded IFLASH_PAGE_SIZE_def] flash_consts)
  have "(unat addr - unat base) div 256 div 64 < 65536" using pl by simp
  then show ?thesis
    unfolding islocked_region_def base_def[symmetric]
    using r by (simp add: unsigned_ucast_eq take_bit_nat_eq_self)
qed

lemma same_bank_regions_ordered:
  assumes "(IFLASH0_ADDR \<le> start_addr \<and> start_addr \<le> end_addr \<and> end_addr < IFLASH1_ADDR)
         \<or> (IFLASH1_ADDR \<le> start_addr \<and> start_addr \<le> end_addr \<and> end_addr < IROM_ADDR)"
  shows "islocked_region start_addr start_addr \<le> islocked_region start_addr end_addr
       \<and> unat (islocked_region start_addr end_addr) < 16"
proof -
  define base where "base = (if start_addr \<ge> IFLASH1_ADDR then IFLASH1_ADDR else IFLASH0_ADDR)"
  have b: "unat base \<le> unat start_addr" "unat start_addr \<le> unat end_addr"
       "unat end_addr - unat base < 2 ^ 18"
    using assms by (auto simp: base_def flash_consts word_le_nat_alt word_less_nat_alt)
  have 1: "unat (islocked_region start_addr start_addr) = (unat start_addr - unat base) div 256 div 64"
    unfolding base_def using b by (intro islocked_region_nat) (auto simp: word_le_nat_alt base_def)
  have 2: "unat (islocked_region start_addr end_addr) = (unat end_addr - unat base) div 256 div 64"
    unfolding base_def using b by (intro islocked_region_nat) (auto simp: word_le_nat_alt base_def)
  have "(unat start_addr - unat base) div 256 div 64 \<le> (unat end_addr - unat base) div 256 div 64"
    using b by (intro div_le_mono) simp
  moreover have "(unat end_addr - unat base) div 256 div 64 < 16" using b by simp
  ultimately show ?thesis by (simp add: word_le_nat_alt 1 2)
qed


lemma regions_30_34:
  "islocked_efc 0x00138000 = EFC1"
  "islocked_region 0x00138000 0x00138000 = 30"
  "islocked_region 0x00138000 0x00148000 = 34"
  by (simp_all add: islocked_efc_def islocked_region_def flash_consts)

lemma upt_30_35: "[30..<35] = [30, 31, 32, 33, 34]"
  by (simp add: upt_rec)

text \<open>
  Regions 30 to 34 (second controller) on \<open>locked_machine\<close>: four locked regions, two
  reads of the result register.
\<close>

theorem islocked_counts_lock_bits_witness:
  "map_option fst (islocked 0x00138000 0x00148000 locked_machine) = Some 4
   \<and> map_option (\<lambda>r. frr_pos (snd r) EFC1) (islocked 0x00138000 0x00148000 locked_machine) = Some 2"
proof -
  have b: "bit (0xC0000000 :: u32) 30" "bit (0xC0000000 :: u32) 31" "bit (5 :: u32) 0"
      "\<not> bit (5 :: u32) 1" "bit (5 :: u32) 2"
    by (simp_all add: bit_numeral_iff bit_iff_odd)
  have hyp: "fsr_in locked_machine (islocked_efc 0x00138000)
               (fsr_pos locked_machine (islocked_efc 0x00138000)) AND EEFC_ERROR_FLAGS = 0"
       "islocked_region 0x00138000 0x00138000 \<le> islocked_region 0x00138000 0x00148000"
    by (simp_all add: regions_30_34 locked_machine_def idle_machine_def)
  show ?thesis
    using islocked_counts_lock_bits[OF hyp] b
    by (simp add: regions_30_34 upt_30_35 lock_bit_def locked_machine_def idle_machine_def
          frr_reads_def cmd_eq)
qed

section \<open>The unique ID reader: properties\<close>

lemma load32_store32_other:
  fixes a b :: u32
  assumes "4 \<le> unat (a - b)" "unat (a - b) \<le> 2 ^ 32 - 4"
  shows "load32 (store32 m b w) a = load32 m a"
proof -
  have k: "unat (a + k - b) = unat (a - b) + unat k" if "unat k < 4" for k :: u32
  proof -
    have "a + k - b = (a - b) + k" by simp
    moreover have "unat ((a - b) + k) = unat (a - b) + unat k"
      using assms that by (simp add: unat_word_ariths)
    ultimately show ?thesis by (simp only:)
  qed
  have "\<not> unat (a - b) < 4" "\<not> unat (a + 1 - b) < 4" "\<not> unat (a + 2 - b) < 4" "\<not> unat (a + 3 - b) < 4"
    using assms k[of 1] k[of 2] k[of 3] by simp_all
  then show ?thesis
    by (simp add: load32_def store32_apply)
qed

lemma store4_load:
  fixes u :: u32
  defines "m4 \<equiv> (\<lambda>m w0 w1 w2 w3. store32 (store32 (store32 (store32 m u w0) (u + 4) w1) (u + 8) w2) (u + 12) w3)"
  shows "load32 (m4 m w0 w1 w2 w3) u = w0"
    and "load32 (m4 m w0 w1 w2 w3) (u + 4) = w1"
    and "load32 (m4 m w0 w1 w2 w3) (u + 8) = w2"
    and "load32 (m4 m w0 w1 w2 w3) (u + 12) = w3"
  unfolding m4_def
  by (simp_all add: load32_store32_other load32_store32_same)



lemma upt_UNIQUE: "[0..<UNIQUE_ID_SIZE] = [0, 1, 2, 3]"
  by (simp add: UNIQUE_ID_SIZE_def upt_rec)

lemma getUniqueID_cached:
  assumes "uBuff \<noteq> NULL" "uniqueID s 0 \<noteq> 0"
  shows "getUniqueID uBuff s =
    Some (SUCCESS,
          s\<lparr>mem := store32 (store32 (store32 (store32 (mem s) uBuff (uniqueID s 0))
                        (uBuff + 4) (uniqueID s 1)) (uBuff + 8) (uniqueID s 2)) (uBuff + 12) (uniqueID s 3)\<rparr>)"
  using assms by (simp add: getUniqueID_def upt_UNIQUE)

lemma wait_FRDY_fall_frame:
  assumes "wait_FRDY_fall stat s = Some s'"
  shows "mem s' = mem s \<and> uniqueID s' = uniqueID s \<and> efc s' = efc s \<and> fmr s' = fmr s"
proof (rule wait_FRDY_fall.raw_induct[where P = "\<lambda>stat s s'.
          mem s' = mem s \<and> uniqueID s' = uniqueID s \<and> efc s' = efc s \<and> fmr s' = fmr s", OF _ assms])
  fix w :: "u32 \<Rightarrow> machine \<Rightarrow> machine option" and stat s y
  assume IH: "\<And>a b c. w a b = Some c \<Longrightarrow>
                mem c = mem b \<and> uniqueID c = uniqueID b \<and> efc c = efc b \<and> fmr c = fmr b"
    and b: "(if stat AND EEFC_FSR_FRDY = EEFC_FSR_FRDY
             then let (v, s1) = read_FSR (efc s) s in w v s1 else Some s) = Some y"
  show "mem y = mem s \<and> uniqueID y = uniqueID s \<and> efc y = efc s \<and> fmr y = fmr s"
  proof (cases "stat AND EEFC_FSR_FRDY = EEFC_FSR_FRDY")
    case True
    with b have "w (fst (read_FSR (efc s) s)) (snd (read_FSR (efc s) s)) = Some y"
      by (simp add: split_def Let_def)
    from IH[OF this] show ?thesis by (simp add: read_FSR_def)
  next
    case False
    with b show ?thesis by simp
  qed
qed

lemma wait_FRDY_rise_frame:
  assumes "wait_FRDY_rise stat s = Some s'"
  shows "mem s' = mem s \<and> uniqueID s' = uniqueID s \<and> efc s' = efc s \<and> fmr s' = fmr s"
proof (rule wait_FRDY_rise.raw_induct[where P = "\<lambda>stat s s'.
          mem s' = mem s \<and> uniqueID s' = uniqueID s \<and> efc s' = efc s \<and> fmr s' = fmr s", OF _ assms])
  fix w :: "u32 \<Rightarrow> machine \<Rightarrow> machine option" and stat s y
  assume IH: "\<And>a b c. w a b = Some c \<Longrightarrow>
                mem c = mem b \<and> uniqueID c = uniqueID b \<and> efc c = efc b \<and> fmr c = fmr b"
    and b: "(if stat AND EEFC_FSR_FRDY \<noteq> EEFC_FSR_FRDY
             then let (v, s1) = read_FSR (efc s) s in w v s1 else Some s) = Some y"
  show "mem y = mem s \<and> uniqueID y = uniqueID s \<and> efc y = efc s \<and> fmr y = fmr s"
  proof (cases "stat AND EEFC_FSR_FRDY \<noteq> EEFC_FSR_FRDY")
    case True
    with b have "w (fst (read_FSR (efc s) s)) (snd (read_FSR (efc s) s)) = Some y"
      by (simp add: split_def Let_def)
    from IH[OF this] show ?thesis by (simp add: read_FSR_def)
  next
    case False
    with b show ?thesis by simp
  qed
qed


lemma copy_unique_words:
  fixes s :: machine and tmp uBuff :: u32
  defines "t \<equiv> fold (copy_unique_word tmp uBuff) [0..<UNIQUE_ID_SIZE] s"
  shows "load32 (mem t) uBuff = uniqueID t 0"
    and "load32 (mem t) (uBuff + 4) = uniqueID t 1"
    and "load32 (mem t) (uBuff + 8) = uniqueID t 2"
    and "load32 (mem t) (uBuff + 12) = uniqueID t 3"
    and "efc t = efc s" and "fmr t = fmr s" and "trace t = trace s"
  unfolding t_def
  by (simp_all add: upt_UNIQUE copy_unique_word_def Let_def store4_load)

lemma four_words:
  "(\<forall>i<4. load32 m (u + 4 * of_nat i) = c i) =
     (load32 m u = c 0 \<and> load32 m (u + 4) = c 1 \<and> load32 m (u + 8) = c 2 \<and> load32 m (u + 12) = c 3)"
  for u :: u32
proof -
  have "(i < 4) = (i = 0 \<or> i = 1 \<or> i = 2 \<or> i = 3)" for i :: nat by arith
  then show ?thesis by auto
qed

lemma reg_ops_frame:
  "mem (snd (read_FMR e s)) = mem s" "uniqueID (snd (read_FMR e s)) = uniqueID s"
  "efc (snd (read_FMR e s)) = efc s"
  "mem (write_FMR e v s) = mem s" "uniqueID (write_FMR e v s) = uniqueID s"
  "efc (write_FMR e v s) = efc s"
  "mem (write_FCR e v s) = mem s" "uniqueID (write_FCR e v s) = uniqueID s"
  "efc (write_FCR e v s) = efc s"
  "mem (snd (read_FSR e s)) = mem s" "uniqueID (snd (read_FSR e s)) = uniqueID s"
  "efc (snd (read_FSR e s)) = efc s"
  "mem (snd (read_FRR e s)) = mem s" "uniqueID (snd (read_FRR e s)) = uniqueID s"
  "efc (snd (read_FRR e s)) = efc s"
  "mem (snd (getfws s)) = mem s" "uniqueID (snd (getfws s)) = uniqueID s"
  "efc (snd (getfws s)) = efc s"
  "mem (setfws f s) = mem s" "uniqueID (setfws f s) = uniqueID s"
  "efc (setfws f s) = efc s"
  by (simp_all add: read_FMR_def write_FMR_def write_FCR_def read_FSR_def read_FRR_def
        getfws_def setfws_def Let_def)

lemma getUniqueID_result:
  assumes "getUniqueID uBuff s = Some (r, s')" "uBuff \<noteq> NULL"
  shows "r = SUCCESS \<and> (\<forall>i<4. load32 (mem s') (uBuff + 4 * of_nat i) = uniqueID s' i)"
proof (cases "uniqueID s 0 \<noteq> 0")
  case True
  from getUniqueID_cached[OF assms(2) True] assms(1)
  show ?thesis
    unfolding four_words by (auto simp: store4_load)
next
  case False
  with assms show ?thesis
    unfolding getUniqueID_def Let_def split_def four_words
    by (auto split: option.split_asm dest!: wait_FRDY_fall_frame wait_FRDY_rise_frame
          simp: reg_ops_frame copy_unique_words)
qed


text \<open>
  C8. Once the cache is populated with a non-zero first word, a call of \<open>getUniqueID\<close>
  with a non-null buffer returns \<open>SUCCESS\<close> and changes nothing but memory: no
  command is issued, no register is read or written (the trace and the read positions
  are those of \<open>s\<close>), and the cache stays as it is, so the same holds for every later
  call. The four words it leaves in the buffer are the cached ones, nothing outside
  the 16 bytes of the buffer is written, and whichever call produced the state left
  the same four words in its own buffer: two successive calls yield identical
  results, and the start/stop sequence is issued by the first only.
\<close>

theorem getUniqueID_idempotent:
  assumes "uBuff \<noteq> NULL" "uniqueID s 0 \<noteq> 0"
  shows "\<exists>m. getUniqueID uBuff s = Some (SUCCESS, s\<lparr>mem := m\<rparr>)
           \<and> (\<forall>i<4. load32 m (uBuff + 4 * of_nat i) = uniqueID s i)
           \<and> (\<forall>a. 16 \<le> unat (a - uBuff) \<longrightarrow> m a = mem s a)
           \<and> (\<forall>uBuff0 s0 r0. uBuff0 \<noteq> NULL \<and> getUniqueID uBuff0 s0 = Some (r0, s) \<longrightarrow>
                 r0 = SUCCESS \<and> (\<forall>i<4. load32 (mem s) (uBuff0 + 4 * of_nat i) = uniqueID s i))"
proof -
  let ?m = "store32 (store32 (store32 (store32 (mem s) uBuff (uniqueID s 0))
                        (uBuff + 4) (uniqueID s 1)) (uBuff + 8) (uniqueID s 2)) (uBuff + 12) (uniqueID s 3)"
  have out: "?m a = mem s a" if "16 \<le> unat (a - uBuff)" for a
  proof -
    have b: "unat (a - uBuff) < 2 ^ 32" using unsigned_less[of "a - uBuff"] by simp
    have "unat (a - (uBuff + of_nat k)) = unat (a - uBuff) - k" if "k \<le> 12" for k
    proof -
      have e: "a - (uBuff + of_nat k) = (a - uBuff) - of_nat k" by simp
      have "unat ((a - uBuff) - of_nat k) = unat (a - uBuff) - k"
        using unat_sub_of_nat[of k "a - uBuff"] that \<open>16 \<le> unat (a - uBuff)\<close> by simp
      then show ?thesis by (simp only: e)
    qed
    from this[of 0] this[of 4] this[of 8] this[of 12] that
    show ?thesis by (auto simp: store32_apply)
  qed
  show ?thesis
    apply (rule exI[of _ ?m])
    using getUniqueID_cached[OF assms] getUniqueID_result out
    by (auto simp: four_words store4_load)
qed

lemma wait_FRDY_fall_done:
  "stat AND EEFC_FSR_FRDY \<noteq> EEFC_FSR_FRDY \<Longrightarrow> wait_FRDY_fall stat s = Some s"
  by (subst wait_FRDY_fall.simps) simp

lemma wait_FRDY_fall_step:
  "stat AND EEFC_FSR_FRDY = EEFC_FSR_FRDY \<Longrightarrow>
     wait_FRDY_fall stat s = wait_FRDY_fall (fst (read_FSR (efc s) s)) (snd (read_FSR (efc s) s))"
  by (subst wait_FRDY_fall.simps) (simp add: split_def Let_def)

lemma wait_FRDY_rise_done:
  "stat AND EEFC_FSR_FRDY = EEFC_FSR_FRDY \<Longrightarrow> wait_FRDY_rise stat s = Some s"
  by (subst wait_FRDY_rise.simps) simp

lemma wait_FRDY_rise_step:
  "stat AND EEFC_FSR_FRDY \<noteq> EEFC_FSR_FRDY \<Longrightarrow>
     wait_FRDY_rise stat s = wait_FRDY_rise (fst (read_FSR (efc s) s)) (snd (read_FSR (efc s) s))"
  by (subst wait_FRDY_rise.simps) (simp add: split_def Let_def)

text \<open>The first, uncached call on \<open>uid_machine\<close>, evaluated.\<close>

lemmas uid_eval =
  getUniqueID_def uid_machine_def idle_machine_def NULL_def getfws_def setfws_def
  read_FMR_def write_FMR_def write_FCR_def read_FSR_def Let_def
  wait_FRDY_fall_done wait_FRDY_fall_step wait_FRDY_rise_done wait_FRDY_rise_step
  upt_UNIQUE upt_4 copy_unique_word_def reg_consts flash_consts cmd_consts FULL_def FULL_zero_def SUCCESS_def
  load32_def word_of_bytes_def

lemma first_call:
  "map_option fst (getUniqueID 0x20000000 uid_machine) = Some SUCCESS"
  "map_option (\<lambda>r. uniqueID (snd r) 0) (getUniqueID 0x20000000 uid_machine) = Some 0x11111111"
  "map_option (\<lambda>r. trace (snd r)) (getUniqueID 0x20000000 uid_machine) =
     Some [Reg_read EFC0 EEFC_FMR, Reg_read EFC0 EEFC_FMR, Reg_write EFC0 EEFC_FMR 0x600,
           Reg_read EFC0 EEFC_FMR, Reg_write EFC0 EEFC_FMR 0x10600,
           Reg_write EFC0 EEFC_FCR 0x5A00000E, Reg_read EFC0 EEFC_FSR,
           Reg_write EFC0 EEFC_FCR 0x5A00000F, Reg_read EFC0 EEFC_FSR,
           Reg_read EFC0 EEFC_FMR, Reg_write EFC0 EEFC_FMR 0x600,
           Reg_read EFC0 EEFC_FMR, Reg_write EFC0 EEFC_FMR 0x400]"
  by (simp_all add: uid_eval)


text \<open>
  Two successive calls on \<open>uid_machine\<close>: the first reads the ID from flash, the second
  answers from the cache with the same first word and leaves the state but for the
  buffer.
\<close>

theorem getUniqueID_idempotent_witness:
  "\<exists>s1. getUniqueID 0x20000000 uid_machine = Some (SUCCESS, s1)
        \<and> uniqueID s1 0 = 0x11111111
        \<and> load32 (mem s1) 0x20000000 = 0x11111111
        \<and> (\<exists>m. getUniqueID 0x20000100 s1 = Some (SUCCESS, s1\<lparr>mem := m\<rparr>)
                \<and> load32 m 0x20000100 = 0x11111111)"
proof -
  obtain s1 where f: "getUniqueID 0x20000000 uid_machine = Some (SUCCESS, s1)"
    using first_call(1) by (cases "getUniqueID 0x20000000 uid_machine") auto
  with first_call(2) have u: "uniqueID s1 0 = 0x11111111" by simp
  have n: "(0x20000100 :: u32) \<noteq> NULL" "(0x20000000 :: u32) \<noteq> NULL" "uniqueID s1 0 \<noteq> 0"
    using u by (simp_all add: NULL_def)
  from getUniqueID_idempotent[OF n(1) n(3)] obtain m where
    m: "getUniqueID 0x20000100 s1 = Some (SUCCESS, s1\<lparr>mem := m\<rparr>)"
       "\<forall>i<4. load32 m (0x20000100 + 4 * of_nat i) = uniqueID s1 i"
       "\<forall>uBuff0 s0 r0. uBuff0 \<noteq> NULL \<and> getUniqueID uBuff0 s0 = Some (r0, s1) \<longrightarrow>
           r0 = SUCCESS \<and> (\<forall>i<4. load32 (mem s1) (uBuff0 + 4 * of_nat i) = uniqueID s1 i)"
    by blast
  from m(3) n(2) f have "\<forall>i<4. load32 (mem s1) (0x20000000 + 4 * of_nat i) = uniqueID s1 i"
    by blast
  then have a: "load32 (mem s1) 0x20000000 = 0x11111111" using u by (simp add: four_words)
  from m(2) have b: "load32 m 0x20000100 = 0x11111111" using u by (simp add: four_words)
  from f u a m(1) b show ?thesis by blast
qed

section \<open>The flash descriptor cache: properties\<close>

lemma upt_FD: "[0..<FLASH_DESCRIPTOR_SIZE] = [0, 1, 2, 3]"
  by (simp add: FLASH_DESCRIPTOR_SIZE_def upt_rec)

lemma FlashTools_cache:
  "flash_descriptor (FlashTools s) = (\<lambda>i. if i = 4 then 0xFFFFFFFF else if i < 4 then 0 else flash_descriptor s i)"
  "uniqueID (FlashTools s) = (\<lambda>i. if i < 4 then 0 else uniqueID s i)"
  "efc (FlashTools s) = EFC0"
  "frr_in (FlashTools s) = frr_in s" "frr_pos (FlashTools s) = frr_pos s"
  "fsr_in (FlashTools s) = fsr_in s" "fsr_pos (FlashTools s) = fsr_pos s"
  "mem (FlashTools s) = mem s"
  by (auto simp: FlashTools_def Let_def read_FMR_def write_FMR_def upt_FD upt_UNIQUE upt_4
        FLASH_DESCRIPTOR_SIZE_def fun_eq_iff)


lemma read_descriptor_step:
  "i < FLASH_DESCRIPTOR_SIZE \<Longrightarrow> frr_in s (efc s) (frr_pos s (efc s)) \<noteq> 0 \<Longrightarrow>
     read_descriptor i s =
       read_descriptor (Suc i)
         (s\<lparr>frr_pos := (frr_pos s)(efc s := Suc (frr_pos s (efc s))),
            trace := trace s @ [Reg_read (efc s) EEFC_FRR],
            flash_descriptor := (flash_descriptor s)(i := frr_in s (efc s) (frr_pos s (efc s)))\<rparr>)"
  by (subst read_descriptor.simps) (simp add: read_FRR_def Let_def)

lemma read_descriptor_stop:
  "i < FLASH_DESCRIPTOR_SIZE \<Longrightarrow> frr_in s (efc s) (frr_pos s (efc s)) = 0 \<Longrightarrow>
     read_descriptor i s = snd (read_FRR (efc s) s)"
  by (subst read_descriptor.simps) (simp add: read_FRR_def Let_def)

lemma read_descriptor_end:
  "\<not> i < FLASH_DESCRIPTOR_SIZE \<Longrightarrow> read_descriptor i s = s"
  by (subst read_descriptor.simps) simp

text \<open>The loop never writes the tag slot and leaves the selection alone.\<close>

lemma read_descriptor_frame:
  "flash_descriptor (read_descriptor i s) FLASH_DESCRIPTOR_SIZE = flash_descriptor s FLASH_DESCRIPTOR_SIZE
   \<and> efc (read_descriptor i s) = efc s"
proof (induction i s rule: read_descriptor.induct)
  case (1 i s)
  show ?case
  proof (cases "i < FLASH_DESCRIPTOR_SIZE")
    case False
    then show ?thesis by (simp add: read_descriptor_end)
  next
    case True
    show ?thesis
    proof (cases "frr_in s (efc s) (frr_pos s (efc s)) = 0")
      case z: True
      then show ?thesis using True by (simp add: read_descriptor_stop read_FRR_def)
    next
      case nz: False
      have "frr_in s (efc s) (frr_pos s (efc s)) \<noteq> 0" using nz by simp
      from "1.IH"[OF True refl _ this, of "snd (read_FRR (efc s) s)"] True nz
      show ?thesis
        by (simp add: read_descriptor_step read_FRR_def FLASH_DESCRIPTOR_SIZE_def)
    qed
  qed
qed


lemma getFlashDescriptor_tag:
  "fst (getFlashDescriptor addr s) \<Longrightarrow>
     flash_descriptor (snd (getFlashDescriptor addr s)) FLASH_DESCRIPTOR_SIZE = addr"
  by (auto simp: getFlashDescriptor_def Let_def split_def split: if_splits)

lemma descriptor_for_tag:
  "fst (descriptor_for addr s) \<Longrightarrow> flash_descriptor (snd (descriptor_for addr s)) 4 = addr"
  using getFlashDescriptor_tag[of addr s]
  by (auto simp: descriptor_for_def FLASH_DESCRIPTOR_SIZE_def)

lemma getRegionSize_is_tag:
  "fst (getRegionSize addr s) = (if fst (descriptor_for addr s) then addr else INVALID)"
  "fst (getPageCountPerRegion addr s) =
     (if fst (descriptor_for addr s)
      then addr div flash_descriptor (snd (descriptor_for addr s)) 2 else INVALID)"
  using descriptor_for_tag[of addr s]
  by (auto simp: getRegionSize_def getPageCountPerRegion_def split_def Let_def)

lemmas descriptor_eval =
  descriptor_for_def getFlashDescriptor_def FlashTools_cache cmd_eq Let_def split_def
  read_descriptor_step read_descriptor_stop read_descriptor_end read_FRR_def
  descriptor_machine_def idle_machine_def flash_consts cmd_consts ret_consts reg_consts FULL_def

text \<open>
  C6 does not hold of the code: after a descriptor fetch for \<open>addr\<close>,
  \<open>getRegionSize addr\<close> returns \<open>flash_descriptor[4]\<close>, which is the slot of the
  address tag (\<open>FLASH_DESCRIPTOR_SIZE\<close> is 4) and never a fetched field: the fetch
  reads four words. On a freshly constructed object over \<open>descriptor_machine\<close>,
  \<open>getRegionSize 0x00080000\<close> returns 0x00080000, the address, where the hardware
  reports regions of 0x4000 bytes, and \<open>getPageCountPerRegion\<close> returns 0x00080000 / 256
  = 0x800 pages per region instead of 64.
\<close>

theorem getRegionSize_returns_address:
  "fst (getRegionSize 0x00080000 (FlashTools descriptor_machine)) = 0x00080000
   \<and> fst (getPageCountPerRegion 0x00080000 (FlashTools descriptor_machine)) = 0x800
   \<and> fst (getPageSize 0x00080000 (FlashTools descriptor_machine)) = 0x100
   \<and> frr_pos (snd (getRegionSize 0x00080000 (FlashTools descriptor_machine))) EFC0 = 4"
  by (simp add: getRegionSize_def getPageCountPerRegion_def getPageSize_def descriptor_eval)


text \<open>
  Above the last page address, and the tag being another address, the seven getters do
  return \<open>INVALID\<close> and leave the whole state as it is.
\<close>

lemma getters_reject_above:
  assumes "IFLASH_LAST_PAGE_ADDRESS < addr" "flash_descriptor s FLASH_DESCRIPTOR_SIZE \<noteq> addr"
  shows "getFlashId addr s = (INVALID, s)" "getFlashSize addr s = (INVALID, s)"
    "getPageSize addr s = (INVALID, s)" "getRegionCount addr s = (INVALID, s)"
    "getRegionSize addr s = (INVALID, s)" "getPageCount addr s = (INVALID, s)"
    "getPageCountPerRegion addr s = (INVALID, s)"
  using assms
  by (simp_all add: getFlashId_def getFlashSize_def getPageSize_def getRegionCount_def
        getRegionSize_def getPageCount_def getPageCountPerRegion_def descriptor_for_def
        getFlashDescriptor_def)

text \<open>
  C5 does not hold of the code: \<open>getFlashDescriptor\<close> rejects only addresses above the
  last page address, so for address 0, below the first bank, the getter issues the
  get-descriptor command, reads four result words, overwrites the cached fields and
  the tag, and returns the flash id instead of \<open>INVALID\<close>. And on a fresh object the
  address 0xFFFFFFFF equals the initial tag: the getter returns field 0 (0), not
  \<open>INVALID\<close>.
\<close>

theorem getFlashId_below_flash_fetches:
  "(0 :: u32) < IFLASH0_ADDR
   \<and> fst (getFlashId 0 (FlashTools descriptor_machine)) = 0x000F0730
   \<and> flash_descriptor (FlashTools descriptor_machine) 4 = 0xFFFFFFFF
   \<and> flash_descriptor (snd (getFlashId 0 (FlashTools descriptor_machine))) 4 = 0
   \<and> flash_descriptor (FlashTools descriptor_machine) 0 = 0
   \<and> flash_descriptor (snd (getFlashId 0 (FlashTools descriptor_machine))) 0 = 0x000F0730
   \<and> trace (snd (getFlashId 0 (FlashTools descriptor_machine))) =
       trace (FlashTools descriptor_machine) @
       [IAP_call 0 0x5A000000, Reg_read EFC0 EEFC_FSR, Reg_read EFC0 EEFC_FRR,
        Reg_read EFC0 EEFC_FRR, Reg_read EFC0 EEFC_FRR, Reg_read EFC0 EEFC_FRR]
   \<and> IFLASH_LAST_PAGE_ADDRESS < 0xFFFFFFFF
   \<and> fst (getFlashId 0xFFFFFFFF (FlashTools descriptor_machine)) = 0"
  by (simp add: getFlashId_def descriptor_eval)

section \<open>write: the wait state and the loop entry\<close>

text \<open>Copying a page leaves the controller registers and the event trace alone.\<close>

lemma flashcpy_frame:
  "efc (snd (flashcpy pa d off ws pad s)) = efc s"
  "fmr (snd (flashcpy pa d off ws pad s)) = fmr s"
  "fsr_in (snd (flashcpy pa d off ws pad s)) = fsr_in s"
  "fsr_pos (snd (flashcpy pa d off ws pad s)) = fsr_pos s"
  "trace (snd (flashcpy pa d off ws pad s)) = trace s"
  by (simp_all add: flashcpy_def Let_def split_def)

text \<open>The page loop never touches the mode registers or the controller selection.\<close>

lemma write_pages_frame:
  assumes "write_pages tsz F erase lock page_num offset data data_size s = Some y"
  shows "fmr (snd y) = fmr s \<and> efc (snd y) = efc s"
proof (rule write_pages.raw_induct[where P = "\<lambda>tsz F erase lock page_num offset data data_size s y.
          fmr (snd y) = fmr s \<and> efc (snd y) = efc s", OF _ assms])
  fix w :: "u32 \<Rightarrow> u32 \<Rightarrow> bool \<Rightarrow> bool \<Rightarrow> u16 \<Rightarrow> u16 \<Rightarrow> u32 \<Rightarrow> u32 \<Rightarrow> machine \<Rightarrow> (loop_exit \<times> machine) option"
    and tsz F erase lock page_num offset data data_size s y
  assume IH: "\<And>a b c d e f g h i j. w a b c d e f g h i = Some j \<Longrightarrow> fmr (snd j) = fmr i \<and> efc (snd j) = efc i"
    and b: "(if 0 < data_size
      then let write_size =
                 if IFLASH_PAGE_SIZE - ucast offset < data_size
                 then IFLASH_PAGE_SIZE - ucast offset else data_size;
               page_address = F + ucast page_num * IFLASH_PAGE_SIZE;
               padding_size = (ucast (IFLASH_PAGE_SIZE - ucast offset - write_size) :: u16);
               (p, s1) = flashcpy page_address data (ucast offset) write_size (ucast padding_size) s;
               (r, s2) = cmd (if erase \<and> lock then EFC_FCMD_EWPL
                      else if erase then EFC_FCMD_EWP else EFC_FCMD_WP) (ucast page_num) s1
           in if r \<noteq> SUCCESS
              then let (v, s3) = read_FSR (efc s2) s2
                   in Some (Return (v AND EEFC_ERROR_FLAGS), s3)
              else w tsz F erase lock (page_num + 1) 0 (data + write_size div tsz * tsz)
                    (data_size - write_size) s2
      else Some (Done, s)) = Some y"
  show "fmr (snd y) = fmr s \<and> efc (snd y) = efc s"
    using b
    by (auto simp: Let_def split_def cmd_eq read_FSR_def flashcpy_frame split: if_splits dest!: IH)
qed


text \<open>Writing back the saved wait state field gives the mode register its old value.\<close>

lemma FWS_Msk_mask: "EEFC_FMR_FWS_Msk = push_bit 8 (mask 4)"
  by (simp add: EEFC_FMR_FWS_Msk_def EEFC_FMR_FWS_Pos_def mask_eq_exp_minus_1)

lemma FWS_restore:
  assumes "f = drop_bit EEFC_FMR_FWS_Pos (x AND EEFC_FMR_FWS_Msk)"
  shows "((x AND NOT EEFC_FMR_FWS_Msk) OR EEFC_FMR_FWS v) AND NOT EEFC_FMR_FWS_Msk
           OR EEFC_FMR_FWS f = x"
  unfolding assms EEFC_FMR_FWS_def FWS_Msk_mask EEFC_FMR_FWS_Pos_def
  by (rule bit_word_eqI) (auto simp: bit_simps)

text \<open>
  The two exits of \<open>write\<close> after the lock check. When the loop runs to its end the
  mode registers are as before the call. When a page command fails the mode register of
  the selected controller keeps wait state 6.
\<close>

lemma write_unlocked_exits:
  fixes addr :: u32
  defines "e \<equiv> (if addr \<ge> IFLASH1_ADDR then EFC1 else EFC0)"
  assumes "write_unlocked tsz addr data data_size erase lock s = Some (r, s')"
  shows "(r = SUCCESS \<and> fmr s' = fmr s)
       \<or> (fmr s' = (fmr s)(e := (fmr s e AND NOT EEFC_FMR_FWS_Msk) OR EEFC_FMR_FWS CHIP_FLASH_WAIT_STATE))"
proof -
  define s2 where "s2 = setfws CHIP_FLASH_WAIT_STATE (snd (getfws (s\<lparr>efc := e\<rparr>)))"
  define F where "F = (if addr \<ge> IFLASH1_ADDR then IFLASH1_ADDR else IFLASH0_ADDR)"
  define pn where "pn = (ucast ((addr - F) div IFLASH_PAGE_SIZE) :: u16)"
  define off where "off = (ucast ((addr - F) mod IFLASH_PAGE_SIZE) :: u16)"
  have s2: "efc s2 = e"
     "fmr s2 = (fmr s)(e := (fmr s e AND NOT EEFC_FMR_FWS_Msk) OR EEFC_FMR_FWS CHIP_FLASH_WAIT_STATE)"
    by (simp_all add: s2_def getfws_def setfws_def read_FMR_def write_FMR_def Let_def)
  have fws: "fst (getfws (s\<lparr>efc := e\<rparr>)) = drop_bit EEFC_FMR_FWS_Pos (fmr s e AND EEFC_FMR_FWS_Msk)"
    by (simp add: getfws_def read_FMR_def Let_def)
  obtain x s3 where w: "write_pages tsz F erase lock pn off data data_size s2 = Some (x, s3)"
    using assms(2)
    by (auto simp: write_unlocked_def Let_def split_def s2_def e_def F_def pn_def off_def
          split: option.splits)
  from write_pages_frame[OF w] s2 have s3: "efc s3 = e" "fmr s3 = fmr s2" by simp_all
  show ?thesis
  proof (cases x)
    case (Return v)
    with assms(2) w have "s' = s3"
      by (simp add: write_unlocked_def Let_def split_def s2_def e_def F_def pn_def off_def)
    then show ?thesis using s3 s2 by simp
  next
    case Done
    with assms(2) w have r: "r = SUCCESS" "s' = setfws (fst (getfws (s\<lparr>efc := e\<rparr>))) s3"
      by (simp_all add: write_unlocked_def Let_def split_def s2_def e_def F_def pn_def off_def)
    have "fmr s' = fmr s"
      unfolding r(2)
      by (rule ext) (simp add: setfws_def read_FMR_def write_FMR_def Let_def s3 s2
            FWS_restore[OF fws])
    with r show ?thesis by simp
  qed
qed


text \<open>
  \<open>write\<close> enters the page loop with the base address of one of the two banks and an
  offset inside a page.
\<close>

lemma write_offset_in_page:
  "(ucast ((a :: u32) mod IFLASH_PAGE_SIZE) :: u16) < 256"
proof -
  have "unat (a mod IFLASH_PAGE_SIZE) < 256"
    by (simp add: IFLASH_PAGE_SIZE_def unat_mod)
  then show ?thesis
    by (simp add: word_less_nat_alt unsigned_ucast_eq take_bit_nat_eq_self)
qed


section \<open>write: the failing inputs\<close>

text \<open>The loop of \<open>write\<close>, one round at a time.\<close>

lemma write_pages_step:
  "0 < data_size \<Longrightarrow>
   write_pages tsz FLASH_START_ADDR erase lock page_num offset data data_size s =
     (let write_size =
            (if IFLASH_PAGE_SIZE - ucast offset < data_size
             then IFLASH_PAGE_SIZE - ucast offset else data_size);
          page_address = FLASH_START_ADDR + ucast page_num * IFLASH_PAGE_SIZE;
          padding_size = (ucast (IFLASH_PAGE_SIZE - ucast offset - write_size) :: u16);
          (p, s1) = flashcpy page_address data (ucast offset) write_size (ucast padding_size) s;
          (r, s2) = cmd (if erase \<and> lock then EFC_FCMD_EWPL
                         else if erase then EFC_FCMD_EWP else EFC_FCMD_WP)
                        (ucast page_num) s1
      in if r \<noteq> SUCCESS
         then (let (v, s3) = read_FSR (efc s2) s2
               in Some (Return (v AND EEFC_ERROR_FLAGS), s3))
         else write_pages tsz FLASH_START_ADDR erase lock (page_num + 1) 0
                (data + (write_size div tsz) * tsz) (data_size - write_size) s2)"
  by (subst write_pages.simps) simp

lemma write_pages_done:
  "write_pages tsz FLASH_START_ADDR erase lock page_num offset data 0 s = Some (Done, s)"
  by (subst write_pages.simps) simp

lemma islocked_region_0:
  "islocked_efc 0x00080000 = EFC0"
  "islocked_region 0x00080000 0x00080000 = 0"
  "islocked_region 0x00080000 0x0008000F = 0"
  by (simp_all add: islocked_efc_def islocked_region_def flash_consts)

lemma islocked_idle:
  "islocked 0x00080000 0x0008000F idle_machine =
     Some (0, frr_reads 1 (snd (cmd EFC_FCMD_GLB 0 idle_machine)))"
proof -
  have "fsr_in idle_machine (islocked_efc 0x00080000)
          (fsr_pos idle_machine (islocked_efc 0x00080000)) AND EEFC_ERROR_FLAGS = 0"
       "islocked_region 0x00080000 0x00080000 \<le> islocked_region 0x00080000 0x0008000F"
    by (simp_all add: islocked_region_0 idle_machine_def)
  from islocked_result[OF this]
  show ?thesis
    by (simp add: islocked_region_0 lock_bit_def idle_machine_def)
qed

lemmas write_eval =
  write_flash_def write_unlocked_def write_pages_step write_pages_done flashcpy_NULL
  cmd_eq getfws_def setfws_def read_FMR_def write_FMR_def read_FSR_def frr_reads_def
  Let_def split_def flash_consts cmd_consts ret_consts reg_consts FULL_def

text \<open>
  C4 does not hold of the code: \<open>write\<close> never tests \<open>data\<close>. With a valid address
  and \<open>data == NULL\<close> it issues the get-lock-bits command, sets the wait state, calls
  \<open>flashcpy\<close> (which returns \<open>NULL\<close> without copying, a result \<open>write\<close> ignores),
  issues the erase-and-write command for page 0 all the same, and returns \<open>SUCCESS\<close>,
  not \<open>INVALID\<close>.
\<close>

theorem write_NULL_data_programs_page:
  "map_option fst (write_flash 1 0x00080000 NULL 16 True False idle_machine) = Some SUCCESS
   \<and> map_option (\<lambda>r. trace (snd r)) (write_flash 1 0x00080000 NULL 16 True False idle_machine) =
       Some [IAP_call 0 0x5A00000A, Reg_read EFC0 EEFC_FSR, Reg_read EFC0 EEFC_FRR,
             Reg_read EFC0 EEFC_FMR, Reg_read EFC0 EEFC_FMR, Reg_write EFC0 EEFC_FMR 0x600,
             IAP_call 0 0x5A000003, Reg_read EFC0 EEFC_FSR,
             Reg_read EFC0 EEFC_FMR, Reg_write EFC0 EEFC_FMR 0]"
proof -
  have a: "(0x00080000 :: u32) + 16 - 1 = 0x0008000F" by simp
  show ?thesis
    unfolding write_flash_def a islocked_idle
    by (simp add: write_eval idle_machine_def)
qed


lemma islocked_fail:
  "islocked 0x00080000 0x0008000F fail_machine =
     Some (0, frr_reads 1 (snd (cmd EFC_FCMD_GLB 0 fail_machine)))"
proof -
  have "fsr_in fail_machine (islocked_efc 0x00080000)
          (fsr_pos fail_machine (islocked_efc 0x00080000)) AND EEFC_ERROR_FLAGS = 0"
       "islocked_region 0x00080000 0x00080000 \<le> islocked_region 0x00080000 0x0008000F"
    by (simp_all add: islocked_region_0 fail_machine_def pattern_machine_def idle_machine_def)
  from islocked_result[OF this]
  show ?thesis
    by (simp add: islocked_region_0 lock_bit_def fail_machine_def pattern_machine_def idle_machine_def)
qed

text \<open>
  C3 does not hold of the code: when a page-program command fails, \<open>write\<close> returns
  the error flags from inside the loop and skips the restoring \<open>setfws(fws)\<close>. On
  \<open>fail_machine\<close> the wait state is 4 before the call; \<open>write\<close> returns the lock-error
  flag (4) and leaves the wait state at 6.
\<close>

theorem write_failure_keeps_wait_state_6:
  "fst (getfws fail_machine) = 4
   \<and> map_option fst (write_flash 1 0x00080000 0x20000000 16 True False fail_machine) = Some 4
   \<and> map_option (\<lambda>r. fst (getfws (snd r)))
         (write_flash 1 0x00080000 0x20000000 16 True False fail_machine) = Some 6"
proof -
  have a: "(0x00080000 :: u32) + 16 - 1 = 0x0008000F" by simp
  have n: "(0x00080000 :: u32) \<noteq> NULL" "(0x20000000 :: u32) \<noteq> NULL" by (simp_all add: NULL_def)
  show ?thesis
    unfolding write_flash_def a islocked_fail
    by (simp add: write_eval flashcpy_eq[OF n] fail_machine_def pattern_machine_def idle_machine_def)
qed


section \<open>write: the loop ends\<close>

lemma write_pages_not_None:
  fixes offset :: u16
  assumes "offset < 256"
  shows "write_pages tsz F erase lock page_num offset data data_size s \<noteq> None"
  using assms
proof (induction "unat data_size" arbitrary: data_size page_num offset data s rule: less_induct)
  case less
  show ?case
  proof (cases "data_size = 0")
    case True
    then show ?thesis by (simp add: write_pages_done)
  next
    case False
    then have pos: "0 < data_size" by (simp add: word_greater_zero_iff)
    define ws where "ws = (if IFLASH_PAGE_SIZE - ucast offset < data_size
                           then IFLASH_PAGE_SIZE - ucast offset else data_size)"
    note sz = write_sizes[OF less.prems pos, folded ws_def]
    have "ws \<le> data_size" using sz(3) by (simp add: word_le_nat_alt)
    then have dec: "unat (data_size - ws) < unat data_size"
      using sz(2) sz(3) by (simp add: unat_sub)
    have z: "(0 :: u16) < 256" by simp
    have IH: "\<forall>p d t. \<exists>y. write_pages tsz F erase lock p 0 d (data_size - ws) t = Some y"
      using less.hyps[OF dec z] by auto
    show ?thesis
      apply (subst write_pages_step[OF pos])
      using IH by (auto simp: Let_def split_def ws_def[symmetric])
  qed
qed

text \<open>
  The page loop always ends: every round writes at least one byte. So \<open>write\<close> returns
  once the lock query (and the unlocking, if any) has returned.
\<close>

lemma write_pages_returns:
  fixes offset :: u16
  assumes "offset < 256"
  shows "\<exists>y. write_pages tsz F erase lock page_num offset data data_size s = Some y"
  using write_pages_not_None[OF assms] by auto

lemma write_unlocked_returns:
  "\<exists>y. write_unlocked tsz addr data data_size erase lock s = Some y"
proof -
  obtain x s3 where
    "write_pages tsz (if addr \<ge> IFLASH1_ADDR then IFLASH1_ADDR else IFLASH0_ADDR) erase lock
       (ucast ((addr - (if addr \<ge> IFLASH1_ADDR then IFLASH1_ADDR else IFLASH0_ADDR)) div IFLASH_PAGE_SIZE))
       (ucast ((addr - (if addr \<ge> IFLASH1_ADDR then IFLASH1_ADDR else IFLASH0_ADDR)) mod IFLASH_PAGE_SIZE))
       data data_size
       (setfws CHIP_FLASH_WAIT_STATE
          (snd (getfws (s\<lparr>efc := (if addr \<ge> IFLASH1_ADDR then EFC1 else EFC0)\<rparr>)))) = Some (x, s3)"
    using write_pages_returns[OF write_offset_in_page] by fastforce
  then show ?thesis
    by (cases x) (simp_all add: write_unlocked_def Let_def split_def)
qed

section \<open>write: the data pointer\<close>

text \<open>
  After a page is committed the loop advances the data pointer by
  \<open>write_size / sizeof(Type)\<close> elements (``Adjust data pointer by size of last write'').
  That is \<open>write_size\<close> bytes exactly when \<open>sizeof(Type)\<close> divides \<open>write_size\<close>, and
  fewer otherwise.
\<close>

lemma write_data_step:
  fixes write_size tsz :: u32
  shows "unat ((write_size div tsz) * tsz) = (unat write_size div unat tsz) * unat tsz"
    and "((write_size div tsz) * tsz = write_size) = (unat tsz dvd unat write_size)"
proof -
  have "(unat write_size div unat tsz) * unat tsz \<le> unat write_size"
    by simp
  also have "unat write_size < 2 ^ 32"
    using unsigned_less[of write_size, where 'a = nat] by simp
  finally have lt: "(unat write_size div unat tsz) * unat tsz < 2 ^ 32" .
  have "unat ((write_size div tsz) * tsz) = (unat (write_size div tsz) * unat tsz) mod 2 ^ 32"
    by (simp add: unat_word_ariths(2))
  also have "\<dots> = ((unat write_size div unat tsz) * unat tsz) mod 2 ^ 32"
    by (simp only: unat_div)
  also have "\<dots> = (unat write_size div unat tsz) * unat tsz"
    using lt by (rule mod_less)
  finally show u: "unat ((write_size div tsz) * tsz) = (unat write_size div unat tsz) * unat tsz" .
  have "((unat write_size div unat tsz) * unat tsz = unat write_size) = (unat tsz dvd unat write_size)"
    by (metis dvd_div_mult_self dvd_triv_right)
  then show "((write_size div tsz) * tsz = write_size) = (unat tsz dvd unat write_size)"
    using u by (simp add: word_unat_eq_iff)
qed

lemma islocked_region_ramp:
  "islocked_efc 0x00080104 = EFC0"
  "islocked_region 0x00080104 0x00080104 = 0"
  "islocked_region 0x00080104 0x00080203 = 0"
  by (simp_all add: islocked_efc_def islocked_region_def flash_consts)

lemma islocked_ramp:
  "islocked 0x00080104 0x00080203 ramp_machine =
     Some (0, frr_reads 1 (snd (cmd EFC_FCMD_GLB 0 ramp_machine)))"
proof -
  have "fsr_in ramp_machine (islocked_efc 0x00080104)
          (fsr_pos ramp_machine (islocked_efc 0x00080104)) AND EEFC_ERROR_FLAGS = 0"
       "islocked_region 0x00080104 0x00080104 \<le> islocked_region 0x00080104 0x00080203"
    by (simp_all add: islocked_region_ramp ramp_machine_def idle_machine_def)
  from islocked_result[OF this]
  show ?thesis
    by (simp add: islocked_region_ramp lock_bit_def ramp_machine_def idle_machine_def)
qed

text \<open>
  C1 does not hold of the code for every \<open>Type\<close>: \<open>write\<close> does not commit the data
  when \<open>sizeof(Type)\<close> does not divide the \<open>write_size\<close> of a page that is not the last.
  \<open>write<uint64_t>(0x00080104, data, 256)\<close> with \<open>data\<close> at 0x20000000 on the ramp
  machine returns \<open>SUCCESS\<close> after two page commands, for pages 1 and 2. Page 1 is merged
  as C1 says: the 4 bytes before offset 4 keep their value 0xFF and the data bytes 0 to
  251 follow. The pointer then advances by 252 / 8 = 31 elements, which is 248 bytes, not
  252. So page 2 starts with the data bytes 248 to 251 (0xF8 to 0xFB) a second time,
  where the data bytes 252 to 255 (0xFC to 0xFF) belong, followed by the kept suffix;
  the last four bytes of the data never reach the flash.
\<close>

theorem write_u64_repeats_bytes:
  "map_option fst (write_flash 8 0x00080104 0x20000000 256 True False ramp_machine) = Some SUCCESS
   \<and> map_option (\<lambda>r. trace (snd r)) (write_flash 8 0x00080104 0x20000000 256 True False ramp_machine) =
       Some [IAP_call 0 0x5A00000A, Reg_read EFC0 EEFC_FSR, Reg_read EFC0 EEFC_FRR,
             Reg_read EFC0 EEFC_FMR, Reg_read EFC0 EEFC_FMR, Reg_write EFC0 EEFC_FMR 0x600,
             IAP_call 0 0x5A000103, Reg_read EFC0 EEFC_FSR,
             IAP_call 0 0x5A000203, Reg_read EFC0 EEFC_FSR,
             Reg_read EFC0 EEFC_FMR, Reg_write EFC0 EEFC_FMR 0]
   \<and> map_option (\<lambda>r. map (mem (snd r)) [0x00080103, 0x00080104, 0x00080105, 0x000801FF])
        (write_flash 8 0x00080104 0x20000000 256 True False ramp_machine) = Some [0xFF, 0x00, 0x01, 0xFB]
   \<and> map_option (\<lambda>r. map (mem (snd r)) [0x00080200, 0x00080201, 0x00080202, 0x00080203, 0x00080204])
        (write_flash 8 0x00080104 0x20000000 256 True False ramp_machine) =
       Some [0xF8, 0xF9, 0xFA, 0xFB, 0xFF]
   \<and> map (mem ramp_machine) [0x200000F8, 0x200000F9, 0x200000FA, 0x200000FB] = [0xF8, 0xF9, 0xFA, 0xFB]
   \<and> map (mem ramp_machine) [0x200000FC, 0x200000FD, 0x200000FE, 0x200000FF] = [0xFC, 0xFD, 0xFE, 0xFF]"
proof -
  have a: "(0x00080104 :: u32) + 256 - 1 = 0x00080203" by simp
  show ?thesis
    unfolding write_flash_def a islocked_ramp
    by (simp add: write_eval flashcpy_eq page_image_def ramp_machine_def idle_machine_def
          unsigned_minus_1_eq_mask mask_eq_exp_minus_1)
qed

end
